theory Spec2Isabelle
  imports Main "HOL-Library.AList"
begin

section \<open>nbind.ts: locating and initialising a compiled nbind binary\<close>

text \<open>
  A shallow embedding of \<^verbatim>\<open>src/nbind.ts\<close>. JavaScript objects live in an explicit
  store, exceptions are values, and everything Node.js provides (\<^verbatim>\<open>path\<close>,
  \<^verbatim>\<open>require\<close>, \<^verbatim>\<open>require.resolve\<close>, \<^verbatim>\<open>process\<close>, functions written by the
  caller or exported by the compiled artifact) is a field of the record \<open>host\<close>.

  What the model leaves out: an object is the list of its own enumerable properties (no
  prototypes, accessors or frozen objects); a function from outside this file returns or
  throws but does not change the store; numbers are integers. The log of events in the state
  is not read by the program: it records the calls that the statements are about.
\<close>

subsection \<open>Values, errors and the store\<close>

type_synonym ref = nat
type_synonym fn_id = nat

text \<open>\<^verbatim>\<open>type: 'node' | 'emcc'\<close>\<close>

datatype module_type = Node | Emcc

record ModuleSpec =
  type :: module_type
  ext :: string
  name :: string
  path :: "string option"

text \<open>
  The completion callback of \<^verbatim>\<open>init\<close>: the default \<^verbatim>\<open>rethrow\<close>, or a function of the
  caller.
\<close>

datatype callback = Rethrow | UserCallback fn_id

text \<open>
  JavaScript values. \<open>JFun\<close> is a function defined outside this file. The two closures that
  \<^verbatim>\<open>initAsm\<close> creates are values of their own, holding what they capture:
  \<open>JLocateFile binding\<close> is the default \<^verbatim>\<open>locateFile\<close>, and
  \<open>JRuntimeInit runtimeInitialized callback binding lib\<close> the wrapper stored in
  \<^verbatim>\<open>lib.onRuntimeInitialized\<close>.
\<close>

datatype jsval =
    JUndefined
  | JNull
  | JBool bool
  | JNum int
  | JStr string
  | JObj ref
  | JFun fn_id
  | JLocateFile ref
  | JRuntimeInit jsval callback ref ref

fun truthy :: "jsval \<Rightarrow> bool" where
  "truthy JUndefined = False"
| "truthy JNull = False"
| "truthy (JBool b) = b"
| "truthy (JNum n) = (n \<noteq> 0)"
| "truthy (JStr s) = (s \<noteq> [])"
| "truthy _ = True"

fun typeof :: "jsval \<Rightarrow> string" where
  "typeof JUndefined = ''undefined''"
| "typeof JNull = ''object''"
| "typeof (JBool b) = ''boolean''"
| "typeof (JNum n) = ''number''"
| "typeof (JStr s) = ''string''"
| "typeof (JObj r) = ''object''"
| "typeof _ = ''function''"

text \<open>
  Exceptions. \<open>LocateError message tries\<close> is the \<^verbatim>\<open>Error\<close> built at the end of
  \<^verbatim>\<open>findCompiledModule\<close> together with its \<^verbatim>\<open>tries\<close> field, \<open>LoadError\<close> the one
  built by \<^verbatim>\<open>initNode\<close>, \<open>TypeError\<close> what the runtime raises when a value that is not a
  function is called, \<open>HostError\<close> an \<^verbatim>\<open>Error\<close> object raised by code outside this file, and
  \<open>Thrown v\<close> any other value \<open>v\<close> that such code throws. Only a thrown value can be falsy.
\<close>

datatype js_error =
    LocateError string "string list"
  | LoadError string
  | TypeError string
  | HostError nat
  | Thrown jsval

fun error_truthy :: "js_error \<Rightarrow> bool" where
  "error_truthy (Thrown v) = truthy v"
| "error_truthy _ = True"

text \<open>
  The arguments of the two kinds of callback, and the observable events of a run: a call of
  \<^verbatim>\<open>require.resolve\<close>, a call of \<^verbatim>\<open>require\<close>, a call of a function from outside this file,
  a call of the completion callback, and a call of \<^verbatim>\<open>lib.onRuntimeInitialized\<close> by the bundle
  while it is loaded.
\<close>

datatype cb_args = CbErr js_error | CbOk ref

datatype find_args = FindErr js_error | FindOk ModuleSpec

datatype event =
    Probe string
  | Load string
  | Call jsval "jsval list"
  | Callback cb_args
  | Fired "jsval list"

text \<open>An object is the ordered list of its own enumerable properties.\<close>

type_synonym obj = "(string \<times> jsval) list"

record Binding =
  binary :: "ModuleSpec option"
  lib :: "ref option"

record js_state =
  objs :: "ref \<Rightarrow> obj"
  bindings :: "ref \<Rightarrow> Binding"
  next_ref :: ref
  currentBinding :: "ref option"
  events :: "event list"

text \<open>
  What an asm.js bundle does with the object it gets from \<^verbatim>\<open>getLib()\<close> while \<^verbatim>\<open>require\<close>
  evaluates it: it sets a property of that object, or it calls the \<^verbatim>\<open>onRuntimeInitialized\<close>
  property of that object if there is one.
\<close>

datatype load_action = SetModule string jsval | RunReady "jsval list"

text \<open>
  The host. \<open>require_load\<close> is the outcome of \<^verbatim>\<open>require\<close>, and \<open>bundle_load\<close> what the file at
  a path does, as an asm.js bundle, before \<^verbatim>\<open>require\<close> ends.
\<close>

record host =
  extname :: "string \<Rightarrow> string"
  path_resolve :: "string list \<Rightarrow> string"
  require_resolve :: "string \<Rightarrow> string option"
  require_load :: "string \<Rightarrow> js_error + jsval"
  bundle_load :: "string \<Rightarrow> load_action list"
  env_NODE_BINDINGS_COMPILED_DIR :: "string option"
  versions_node :: string
  platform :: string
  arch :: string
  cwd :: string
  fn_outcome :: "jsval \<Rightarrow> jsval list \<Rightarrow> js_error option"
  callback_outcome :: "fn_id \<Rightarrow> cb_args \<Rightarrow> js_error option"

definition emit :: "event list \<Rightarrow> js_state \<Rightarrow> js_state" where
  "emit es S = S\<lparr>events := events S @ es\<rparr>"

definition get_prop :: "js_state \<Rightarrow> ref \<Rightarrow> string \<Rightarrow> jsval" where
  "get_prop S r k = (case map_of (objs S r) k of None \<Rightarrow> JUndefined | Some v \<Rightarrow> v)"

definition set_prop :: "js_state \<Rightarrow> ref \<Rightarrow> string \<Rightarrow> jsval \<Rightarrow> js_state" where
  "set_prop S r k v = S\<lparr>objs := (objs S)(r := AList.update k v (objs S r))\<rparr>"

definition delete_prop :: "js_state \<Rightarrow> ref \<Rightarrow> string \<Rightarrow> js_state" where
  "delete_prop S r k = S\<lparr>objs := (objs S)(r := AList.delete k (objs S r))\<rparr>"

text \<open>\<^verbatim>\<open>Object.keys(o)\<close>\<close>

definition keys :: "js_state \<Rightarrow> ref \<Rightarrow> string list" where
  "keys S r = map fst (objs S r)"

subsection \<open>The search: \<^verbatim>\<open>makeModulePathList\<close>, \<^verbatim>\<open>findCompiledModule\<close>, \<^verbatim>\<open>find\<close>\<close>

text \<open>\<^verbatim>\<open>process.env['NODE_BINDINGS_COMPILED_DIR'] || 'compiled'\<close>: an empty string is falsy.\<close>

definition compiledDir :: "host \<Rightarrow> string" where
  "compiledDir h =
     (case env_NODE_BINDINGS_COMPILED_DIR h of
        None \<Rightarrow> ''compiled''
      | Some d \<Rightarrow> if d = [] then ''compiled'' else d)"

definition makeModulePathList :: "host \<Rightarrow> string \<Rightarrow> string \<Rightarrow> string list list" where
  "makeModulePathList h root nm =
     [ [root, nm],
       [root, ''build'', nm],
       [root, ''build'', ''Debug'', nm],
       [root, ''build'', ''Release'', nm],
       [root, ''out'', ''Debug'', nm],
       [root, ''Debug'', nm],
       [root, ''out'', ''Release'', nm],
       [root, ''Release'', nm],
       [root, ''build'', ''default'', nm],
       [root, compiledDir h, versions_node h, platform h, arch h, nm] ]"

text \<open>
  A callback given to \<^verbatim>\<open>findCompiledModule\<close> runs on the state and either returns
  (\<open>None\<close>) or throws.
\<close>

type_synonym find_cb = "find_args \<Rightarrow> js_state \<Rightarrow> js_error option \<times> js_state"

text \<open>
  The first loop of \<^verbatim>\<open>findCompiledModule\<close>. The \<^verbatim>\<open>try\<close> block holds both
  \<^verbatim>\<open>require.resolve(basePath)\<close> and the call of the callback, so an exception of either
  one ends in the \<^verbatim>\<open>catch\<close>, which records \<^verbatim>\<open>basePath\<close> and goes on with the next entry.
\<close>

fun fastPath ::
  "host \<Rightarrow> string \<Rightarrow> string \<Rightarrow> find_cb \<Rightarrow> ModuleSpec list \<Rightarrow> string list \<Rightarrow> js_state
     \<Rightarrow> (ModuleSpec option \<times> string list) \<times> js_state" where
  "fastPath h basePath e cb [] resolvedList S = ((None, resolvedList), S)"
| "fastPath h basePath e cb (spec # rest) resolvedList S =
     (if e = ext spec then
        (case require_resolve h basePath of
           None \<Rightarrow> fastPath h basePath e cb rest (resolvedList @ [basePath]) (emit [Probe basePath] S)
         | Some p \<Rightarrow>
            (case cb (FindOk (spec\<lparr>path := Some p\<rparr>)) (emit [Probe basePath] S) of
               (None, S') \<Rightarrow> ((Some (spec\<lparr>path := Some p\<rparr>), resolvedList), S')
             | (Some err, S') \<Rightarrow> fastPath h basePath e cb rest (resolvedList @ [basePath]) S'))
      else fastPath h basePath e cb rest resolvedList S)"

text \<open>
  The second loop. Its inner loop over the path list of one entry either finds the module,
  is left by an exception of the callback (which is called outside the \<^verbatim>\<open>try\<close> here), or
  ends with every path recorded.
\<close>

datatype search = Found ModuleSpec | Raised js_error | Missed "string list"

fun tryPaths ::
  "host \<Rightarrow> find_cb \<Rightarrow> ModuleSpec \<Rightarrow> string list list \<Rightarrow> string list \<Rightarrow> js_state
     \<Rightarrow> search \<times> js_state" where
  "tryPaths h cb spec [] resolvedList S = (Missed resolvedList, S)"
| "tryPaths h cb spec (pathParts # rest) resolvedList S =
     (case require_resolve h (path_resolve h pathParts) of
        None \<Rightarrow>
          tryPaths h cb spec rest (resolvedList @ [path_resolve h pathParts])
            (emit [Probe (path_resolve h pathParts)] S)
      | Some p \<Rightarrow>
          (case cb (FindOk (spec\<lparr>path := Some p\<rparr>)) (emit [Probe (path_resolve h pathParts)] S) of
             (None, S') \<Rightarrow> (Found (spec\<lparr>path := Some p\<rparr>), S')
           | (Some err, S') \<Rightarrow> (Raised err, S')))"

fun searchSpecs ::
  "host \<Rightarrow> string \<Rightarrow> find_cb \<Rightarrow> ModuleSpec list \<Rightarrow> string list \<Rightarrow> js_state
     \<Rightarrow> search \<times> js_state" where
  "searchSpecs h basePath cb [] resolvedList S = (Missed resolvedList, S)"
| "searchSpecs h basePath cb (spec # rest) resolvedList S =
     (case tryPaths h cb spec (makeModulePathList h basePath (name spec)) resolvedList S of
        (Missed tried, S') \<Rightarrow> searchSpecs h basePath cb rest tried S'
      | (Found s, S') \<Rightarrow> (Found s, S')
      | (Raised err, S') \<Rightarrow> (Raised err, S'))"

text \<open>\<^verbatim>\<open>Array.prototype.join\<close>\<close>

fun join :: "string \<Rightarrow> string list \<Rightarrow> string" where
  "join sep [] = []"
| "join sep [x] = x"
| "join sep (x # y # ys) = x @ sep @ join sep (y # ys)"

definition locateError :: "string list \<Rightarrow> js_error" where
  "locateError resolvedList =
     LocateError
       (''Could not locate the bindings file. Tried:'' @ [CHR 0x0A] @ join [CHR 0x0A] resolvedList)
       resolvedList"

text \<open>
  \<^verbatim>\<open>findCompiledModule\<close> returns the entry found or \<^verbatim>\<open>null\<close> (\<open>Inr None\<close>), or is left
  by an exception (\<open>Inl\<close>).
\<close>

definition findCompiledModule ::
  "host \<Rightarrow> string \<Rightarrow> ModuleSpec list \<Rightarrow> find_cb \<Rightarrow> js_state
     \<Rightarrow> (js_error + ModuleSpec option) \<times> js_state" where
  "findCompiledModule h basePath specList cb S =
     (case fastPath h basePath (extname h basePath) cb specList [] S of
        ((Some spec, tried), S1) \<Rightarrow> (Inr (Some spec), S1)
      | ((None, tried), S1) \<Rightarrow>
          (case searchSpecs h basePath cb specList tried S1 of
             (Found spec, S2) \<Rightarrow> (Inr (Some spec), S2)
           | (Raised err, S2) \<Rightarrow> (Inl err, S2)
           | (Missed resolvedList, S2) \<Rightarrow>
               (case cb (FindErr (locateError resolvedList)) S2 of
                  (None, S3) \<Rightarrow> (Inr None, S3)
                | (Some err, S3) \<Rightarrow> (Inl err, S3))))"

text \<open>The default callback \<^verbatim>\<open>rethrow\<close>, as a callback of \<^verbatim>\<open>find\<close>.\<close>

definition rethrow_find :: find_cb where
  "rethrow_find a S =
     (case a of
        FindErr err \<Rightarrow> (if error_truthy err then Some err else None, S)
      | FindOk spec \<Rightarrow> (None, S))"

definition registry :: "ModuleSpec list" where
  "registry =
     [ \<lparr>type = Node, ext = ''.node'', name = ''nbind.node'', path = None\<rparr>,
       \<lparr>type = Emcc, ext = ''.js'', name = ''nbind.js'', path = None\<rparr> ]"

text \<open>
  \<^verbatim>\<open>find(basePath?, cb?)\<close>. \<^verbatim>\<open>(basePath != callback && basePath) || process.cwd()\<close>: a
  missing or empty \<^verbatim>\<open>basePath\<close> is falsy.
\<close>

definition find_nbind ::
  "host \<Rightarrow> string option \<Rightarrow> find_cb option \<Rightarrow> js_state
     \<Rightarrow> (js_error + ModuleSpec option) \<times> js_state" where
  "find_nbind h basePath cb S =
     findCompiledModule h
       (case basePath of None \<Rightarrow> cwd h | Some p \<Rightarrow> if p = [] then cwd h else p)
       registry
       (case cb of None \<Rightarrow> rethrow_find | Some f \<Rightarrow> f)
       S"

subsection \<open>\<^verbatim>\<open>Binding\<close>, \<^verbatim>\<open>init\<close>, \<^verbatim>\<open>initAsm\<close>, \<^verbatim>\<open>initNode\<close>\<close>

text \<open>\<^verbatim>\<open>new Binding()\<close> and \<^verbatim>\<open>{}\<close> allocate at the next free address.\<close>

definition new_Binding :: "js_state \<Rightarrow> ref \<times> js_state" where
  "new_Binding S =
     (next_ref S,
      S\<lparr>bindings := (bindings S)(next_ref S := \<lparr>binary = None, lib = None\<rparr>),
        next_ref := Suc (next_ref S)\<rparr>)"

definition new_object :: "js_state \<Rightarrow> ref \<times> js_state" where
  "new_object S =
     (next_ref S, S\<lparr>objs := (objs S)(next_ref S := []), next_ref := Suc (next_ref S)\<rparr>)"

text \<open>
  Calling the completion callback. \<^verbatim>\<open>rethrow\<close> is \<^verbatim>\<open>if(err) throw(err)\<close>; what a function
  of the caller does is the host's.
\<close>

definition invoke_callback ::
  "host \<Rightarrow> callback \<Rightarrow> cb_args \<Rightarrow> js_state \<Rightarrow> js_error option \<times> js_state" where
  "invoke_callback h callback a S =
     (case callback of
        Rethrow \<Rightarrow>
          (case a of
             CbErr err \<Rightarrow> if error_truthy err then Some err else None
           | CbOk b \<Rightarrow> None)
      | UserCallback f \<Rightarrow> callback_outcome h f a,
      emit [Callback a] S)"

text \<open>
  Calling a value. A function from outside this file returns or throws as the host says; a
  value that is not a function cannot be called. The wrapper that \<^verbatim>\<open>initAsm\<close> stores in
  \<^verbatim>\<open>lib.onRuntimeInitialized\<close> runs its body: the hook it replaced, then
  \<^verbatim>\<open>lib.ccall('nbind_init')\<close> inside \<^verbatim>\<open>try\<close>, then the callback. Whether the call of
  \<^verbatim>\<open>lib.ccall\<close> returns is the host's, whatever function is stored there.
\<close>

definition call_host ::
  "host \<Rightarrow> jsval \<Rightarrow> jsval list \<Rightarrow> js_state \<Rightarrow> js_error option \<times> js_state" where
  "call_host h f args S =
     (if typeof f = ''function'' then (fn_outcome h f args, emit [Call f args] S)
      else (Some (TypeError ''not a function''), S))"

fun call_value ::
  "host \<Rightarrow> jsval \<Rightarrow> jsval list \<Rightarrow> js_state \<Rightarrow> js_error option \<times> js_state" where
  "call_value h (JRuntimeInit runtimeInitialized callback b l) args S =
     (case (if truthy runtimeInitialized then call_value h runtimeInitialized args S
            else (None, S)) of
        (Some err, S1) \<Rightarrow> (Some err, S1)
      | (None, S1) \<Rightarrow>
          (case call_host h (get_prop S1 l ''ccall'') [JStr ''nbind_init''] S1 of
             (Some err, S2) \<Rightarrow> invoke_callback h callback (CbErr err) S2
           | (None, S2) \<Rightarrow> invoke_callback h callback (CbOk b) S2))"
| "call_value h f args S = call_host h f args S"

text \<open>
  \<^verbatim>\<open>getLib()\<close> returns \<^verbatim>\<open>currentBinding.lib\<close>; the bundle cannot go on without that object.
\<close>

definition getLib :: "js_state \<Rightarrow> js_error + ref" where
  "getLib S =
     (case currentBinding S of
        None \<Rightarrow> Inl (TypeError ''Cannot read property lib of undefined'')
      | Some b \<Rightarrow>
          (case lib (bindings S b) of
             None \<Rightarrow> Inl (TypeError ''Module is undefined'')
           | Some l \<Rightarrow> Inr l))"

text \<open>
  \<^verbatim>\<open>require\<close> of an asm.js bundle evaluates the bundle, which runs its actions in order on
  the object \<^verbatim>\<open>getLib()\<close> gives it. An exception of \<^verbatim>\<open>onRuntimeInitialized\<close> ends the
  evaluation and leaves \<^verbatim>\<open>require\<close>.
\<close>

fun run_bundle :: "host \<Rightarrow> load_action list \<Rightarrow> js_state \<Rightarrow> js_error option \<times> js_state" where
  "run_bundle h [] S = (None, S)"
| "run_bundle h (SetModule k v # rest) S =
     (case getLib S of
        Inl err \<Rightarrow> (Some err, S)
      | Inr l \<Rightarrow> run_bundle h rest (set_prop S l k v))"
| "run_bundle h (RunReady args # rest) S =
     (case getLib S of
        Inl err \<Rightarrow> (Some err, S)
      | Inr l \<Rightarrow>
          if truthy (get_prop S l ''onRuntimeInitialized'') then
            (case call_value h (get_prop S l ''onRuntimeInitialized'') args (emit [Fired args] S) of
               (Some err, S') \<Rightarrow> (Some err, S')
             | (None, S') \<Rightarrow> run_bundle h rest S')
          else run_bundle h rest S)"

definition require_bundle :: "host \<Rightarrow> string \<Rightarrow> js_state \<Rightarrow> js_error option \<times> js_state" where
  "require_bundle h p S =
     (case run_bundle h (bundle_load h p) (emit [Load p] S) of
        (Some err, S') \<Rightarrow> (Some err, S')
      | (None, S') \<Rightarrow>
          (case require_load h p of
             Inl err \<Rightarrow> (Some err, S')
           | Inr v \<Rightarrow> (None, S')))"

text \<open>
  \<^verbatim>\<open>Object.keys(lib).forEach(function(key) { binding.lib[key] = lib[key]; })\<close>: the key
  list is taken once, every property is read from the store as it is at that iteration.
\<close>

fun copy_keys :: "ref \<Rightarrow> ref \<Rightarrow> string list \<Rightarrow> js_state \<Rightarrow> js_state" where
  "copy_keys dst src [] S = S"
| "copy_keys dst src (key # rest) S =
     copy_keys dst src rest (set_prop S dst key (get_prop S src key))"

text \<open>
  \<^verbatim>\<open>binding.binary.path\<close>, with the \<^verbatim>\<open>TypeError\<close> of reading a property of
  \<^verbatim>\<open>undefined\<close> and the error of \<^verbatim>\<open>require(undefined)\<close>.
\<close>

definition binary_path :: "js_state \<Rightarrow> ref \<Rightarrow> js_error + string" where
  "binary_path S b =
     (case binary (bindings S b) of
        None \<Rightarrow> Inl (TypeError ''Cannot read property path of undefined'')
      | Some spec \<Rightarrow>
          (case path spec of
             None \<Rightarrow> Inl (TypeError ''missing path'')
           | Some p \<Rightarrow> Inr p))"

definition initNode :: "host \<Rightarrow> ref \<Rightarrow> callback \<Rightarrow> js_state \<Rightarrow> js_error option \<times> js_state" where
  "initNode h b callback S =
     (case binary_path S b of
        Inl err \<Rightarrow> (Some err, S)
      | Inr p \<Rightarrow>
          (case require_load h p of
             Inl err \<Rightarrow> (Some err, emit [Load p] S)
           | Inr v \<Rightarrow>
               if \<not> truthy v \<or> typeof v \<noteq> ''object'' then
                 invoke_callback h callback (CbErr (LoadError ''Error loading addon''))
                   (emit [Load p] S)
               else
                 (case v of
                    JObj m \<Rightarrow>
                      (case lib (bindings S b) of
                         Some l \<Rightarrow>
                           invoke_callback h callback (CbOk b)
                             (copy_keys l m (keys S m) (emit [Load p] S))
                       | None \<Rightarrow>
                           if keys S m = [] then
                             invoke_callback h callback (CbOk b) (emit [Load p] S)
                           else (Some (TypeError ''Cannot set property of undefined''),
                                 emit [Load p] S))
                  | _ \<Rightarrow> (Some (TypeError ''unreachable''), S))))"

definition initAsm :: "host \<Rightarrow> ref \<Rightarrow> callback \<Rightarrow> js_state \<Rightarrow> js_error option \<times> js_state" where
  "initAsm h b callback S =
     (case lib (bindings S b) of
        None \<Rightarrow> (Some (TypeError ''Cannot read property locateFile of undefined''), S)
      | Some l \<Rightarrow>
          (let S1 = set_prop S l ''locateFile''
                      (if truthy (get_prop S l ''locateFile'') then get_prop S l ''locateFile''
                       else JLocateFile b);
               runtimeInitialized = get_prop S1 l ''onRuntimeInitialized'';
               S2 = set_prop S1 l ''onRuntimeInitialized''
                      (JRuntimeInit runtimeInitialized callback b l);
               S3 = S2\<lparr>currentBinding := Some b\<rparr>
           in case binary_path S3 b of
                Inl err \<Rightarrow> (Some err, S3)
              | Inr p \<Rightarrow> require_bundle h p S3))"

text \<open>
  The function that \<^verbatim>\<open>init\<close> gives to \<^verbatim>\<open>find\<close>. \<open>lib0\<close> is the \<^verbatim>\<open>lib\<close> argument of
  \<^verbatim>\<open>init\<close>, an object of the caller or absent; \<^verbatim>\<open>(lib != callback && lib) || {}\<close>. With a
  falsy \<open>err\<close> and no \<^verbatim>\<open>binary\<close> the two assignments are made and \<^verbatim>\<open>binary.type\<close> raises.
\<close>

definition init_found ::
  "host \<Rightarrow> ref option \<Rightarrow> callback \<Rightarrow> ref \<Rightarrow> find_args \<Rightarrow> js_state
     \<Rightarrow> js_error option \<times> js_state" where
  "init_found h lib0 callback b a S =
     (case a of
        FindErr err \<Rightarrow>
          if error_truthy err then invoke_callback h callback (CbErr err) S
          else
            (let S1 = S\<lparr>bindings := (bindings S)(b := (bindings S b)\<lparr>binary := None\<rparr>)\<rparr>;
                 (l, S2) = (case lib0 of Some r \<Rightarrow> (r, S1) | None \<Rightarrow> new_object S1);
                 S3 = S2\<lparr>bindings := (bindings S2)(b := (bindings S2 b)\<lparr>lib := Some l\<rparr>)\<rparr>
             in (Some (TypeError ''Cannot read property type of undefined''), S3))
      | FindOk spec \<Rightarrow>
          (let S1 = S\<lparr>bindings := (bindings S)(b := (bindings S b)\<lparr>binary := Some spec\<rparr>)\<rparr>;
               (l, S2) = (case lib0 of Some r \<Rightarrow> (r, S1) | None \<Rightarrow> new_object S1);
               S3 = S2\<lparr>bindings := (bindings S2)(b := (bindings S2 b)\<lparr>lib := Some l\<rparr>)\<rparr>
           in if type spec = Emcc then initAsm h b callback S3 else initNode h b callback S3))"

text \<open>
  \<^verbatim>\<open>init(basePath?, lib?, cb?)\<close> returns the binding (\<open>Inr\<close>) or is left by an exception.
\<close>

definition init ::
  "host \<Rightarrow> string option \<Rightarrow> ref option \<Rightarrow> fn_id option \<Rightarrow> js_state
     \<Rightarrow> (js_error + ref) \<times> js_state" where
  "init h basePath lib0 cb S =
     (let callback = (case cb of None \<Rightarrow> Rethrow | Some f \<Rightarrow> UserCallback f);
          (b, S1) = new_Binding S
      in case find_nbind h basePath (Some (init_found h lib0 callback b)) S1 of
           (Inl err, S2) \<Rightarrow> (Inl err, S2)
         | (Inr r, S2) \<Rightarrow> (Inr b, S2))"

subsection \<open>Notions used in the statements\<close>

text \<open>
  The candidate paths of the directory search in the order of the two nested loops: registry
  entries outside, the path list of \<^verbatim>\<open>makeModulePathList\<close> inside.
\<close>

definition candidatePaths :: "host \<Rightarrow> string \<Rightarrow> ModuleSpec \<Rightarrow> (ModuleSpec \<times> string) list" where
  "candidatePaths h root spec =
     map (\<lambda>parts. (spec, path_resolve h parts)) (makeModulePathList h root (name spec))"

definition candidates :: "host \<Rightarrow> string \<Rightarrow> ModuleSpec list \<Rightarrow> (ModuleSpec \<times> string) list" where
  "candidates h root specs = concat (map (candidatePaths h root) specs)"

text \<open>None of the paths resolves.\<close>

definition misses :: "host \<Rightarrow> string list \<Rightarrow> bool" where
  "misses h ps = list_all (\<lambda>p. require_resolve h p = None) ps"

text \<open>The two entries of the registry that \<^verbatim>\<open>find\<close> passes.\<close>

definition nodeSpec :: ModuleSpec where
  "nodeSpec = \<lparr>type = Node, ext = ''.node'', name = ''nbind.node'', path = None\<rparr>"

definition emccSpec :: ModuleSpec where
  "emccSpec = \<lparr>type = Emcc, ext = ''.js'', name = ''nbind.js'', path = None\<rparr>"

text \<open>
  Every path that \<^verbatim>\<open>find\<close> tries under \<open>root\<close>, in the order tried: \<open>root\<close> itself when its
  extension is the one of a registry entry, then the ten paths of \<^verbatim>\<open>nbind.node\<close>, then the ten of
  \<^verbatim>\<open>nbind.js\<close>.
\<close>

definition attemptedPaths :: "host \<Rightarrow> string \<Rightarrow> string list" where
  "attemptedPaths h root =
     (if extname h root = ''.node'' \<or> extname h root = ''.js'' then [root] else [])
     @ map (path_resolve h) (makeModulePathList h root ''nbind.node'')
     @ map (path_resolve h) (makeModulePathList h root ''nbind.js'')"

text \<open>What the first loop records when \<^verbatim>\<open>basePath\<close> does not resolve.\<close>

definition fastTried :: "host \<Rightarrow> string \<Rightarrow> ModuleSpec list \<Rightarrow> string list" where
  "fastTried h root specs =
     replicate (length (filter (\<lambda>s. ext s = extname h root) specs)) root"

text \<open>
  The state after the two assignments \<^verbatim>\<open>binding.binary = binary\<close> and
  \<^verbatim>\<open>binding.lib = (lib != callback && lib) || {}\<close> of \<open>init_found\<close>, and the object that
  \<^verbatim>\<open>binding.lib\<close> then refers to.
\<close>

definition populate :: "ref \<Rightarrow> ModuleSpec \<Rightarrow> ref option \<Rightarrow> js_state \<Rightarrow> js_state" where
  "populate b spec lib0 S =
     (let S1 = S\<lparr>bindings := (bindings S)(b := (bindings S b)\<lparr>binary := Some spec\<rparr>)\<rparr>;
          (l, S2) = (case lib0 of Some r \<Rightarrow> (r, S1) | None \<Rightarrow> new_object S1)
      in S2\<lparr>bindings := (bindings S2)(b := (bindings S2 b)\<lparr>lib := Some l\<rparr>)\<rparr>)"

definition exports_ref :: "ref option \<Rightarrow> js_state \<Rightarrow> ref" where
  "exports_ref lib0 S = (case lib0 of Some r \<Rightarrow> r | None \<Rightarrow> next_ref S)"

text \<open>
  The runtime-ready hook that the caller supplied: the \<^verbatim>\<open>onRuntimeInitialized\<close> property of
  the \<^verbatim>\<open>lib\<close> argument when \<^verbatim>\<open>init\<close> is called.
\<close>

definition original_hook :: "ref option \<Rightarrow> js_state \<Rightarrow> jsval" where
  "original_hook lib0 S =
     (case lib0 of Some r \<Rightarrow> get_prop S r ''onRuntimeInitialized'' | None \<Rightarrow> JUndefined)"

text \<open>
  Whether \<^verbatim>\<open>lib.ccall('nbind_init')\<close> returns or raises, \<open>c\<close> being the value of
  \<^verbatim>\<open>lib.ccall\<close>.
\<close>

definition ccall_outcome :: "host \<Rightarrow> jsval \<Rightarrow> js_error option" where
  "ccall_outcome h c =
     (if typeof c = ''function'' then fn_outcome h c [JStr ''nbind_init'']
      else Some (TypeError ''not a function''))"

text \<open>
  What \<^verbatim>\<open>findCompiledModule\<close> does with its callback at the end of a search: the callback
  is called once, and its exception, if any, leaves \<^verbatim>\<open>findCompiledModule\<close>; otherwise the
  entry found, or \<^verbatim>\<open>null\<close>, is returned.
\<close>

definition deliver ::
  "find_cb \<Rightarrow> find_args \<Rightarrow> js_state \<Rightarrow> (js_error + ModuleSpec option) \<times> js_state" where
  "deliver cb a T =
     (case cb a T of
        (None, S') \<Rightarrow> (Inr (case a of FindOk s \<Rightarrow> Some s | FindErr err \<Rightarrow> None), S')
      | (Some err, S') \<Rightarrow> (Inl err, S'))"

text \<open>
  \<^verbatim>\<open>callback\<close> and the root of the search as \<^verbatim>\<open>init\<close> and \<^verbatim>\<open>find\<close> compute them from
  their arguments.
\<close>

definition completion :: "fn_id option \<Rightarrow> callback" where
  "completion cb = (case cb of None \<Rightarrow> Rethrow | Some f \<Rightarrow> UserCallback f)"

definition search_root :: "host \<Rightarrow> string option \<Rightarrow> string" where
  "search_root h basePath = (case basePath of None \<Rightarrow> cwd h | Some p \<Rightarrow> if p = [] then cwd h else p)"





text \<open>
  The state in which \<^verbatim>\<open>initAsm\<close> calls \<^verbatim>\<open>require\<close>: the binding holds its descriptor and its
  exports, the exports hold \<^verbatim>\<open>locateFile\<close> and the runtime-ready wrapper, and the binding is
  the current one.
\<close>

definition asm_ready :: "ref \<Rightarrow> ModuleSpec \<Rightarrow> ref option \<Rightarrow> callback \<Rightarrow> js_state \<Rightarrow> js_state" where
  "asm_ready b spec lib0 c S =
     (set_prop
        (set_prop (populate b spec lib0 S) (exports_ref lib0 S) ''locateFile''
           (if truthy (get_prop (populate b spec lib0 S) (exports_ref lib0 S) ''locateFile'')
            then get_prop (populate b spec lib0 S) (exports_ref lib0 S) ''locateFile''
            else JLocateFile b))
        (exports_ref lib0 S) ''onRuntimeInitialized''
        (JRuntimeInit (original_hook lib0 S) c b (exports_ref lib0 S)))
     \<lparr>currentBinding := Some b\<rparr>"

text \<open>
  The bundle does not replace \<^verbatim>\<open>onRuntimeInitialized\<close> while it is loaded. The hook that the
  caller supplied is absent, or is a function from outside this file that returns whatever
  its arguments.
\<close>

definition hook_kept :: "load_action list \<Rightarrow> bool" where
  "hook_kept acts =
     list_all (\<lambda>a. case a of SetModule k v \<Rightarrow> k \<noteq> ''onRuntimeInitialized'' | RunReady args \<Rightarrow> True)
       acts"

definition hook_returns :: "host \<Rightarrow> jsval \<Rightarrow> bool" where
  "hook_returns h orig =
     (\<not> truthy orig \<or> (\<exists>f. orig = JFun f) \<and> (\<forall>args. fn_outcome h orig args = None))"

text \<open>
  The completion callback is a function of the caller that returns whatever it is called
  with.
\<close>

definition never_raises :: "host \<Rightarrow> callback \<Rightarrow> bool" where
  "never_raises h c = (\<exists>f. c = UserCallback f \<and> (\<forall>a. callback_outcome h f a = None))"

text \<open>
  The call that the first loop of \<^verbatim>\<open>findCompiledModule\<close> makes inside its \<^verbatim>\<open>try\<close> block, if
  it makes one, returns: when the extension of the root of the search is the one of a
  registry entry and the root resolves, the function that \<^verbatim>\<open>init\<close> gives to \<^verbatim>\<open>find\<close>,
  called with the first such entry, does not throw. Nothing is required of a call whose root
  has another extension or does not resolve.
\<close>

definition fast_path_returns ::
  "host \<Rightarrow> string option \<Rightarrow> ref option \<Rightarrow> fn_id option \<Rightarrow> js_state \<Rightarrow> bool" where
  "fast_path_returns h basePath lib0 cb S =
     (case List.find (\<lambda>s. ext s = extname h (search_root h basePath)) registry of
        None \<Rightarrow> True
      | Some s \<Rightarrow>
          (case require_resolve h (search_root h basePath) of
             None \<Rightarrow> True
           | Some q \<Rightarrow>
               fst (init_found h lib0 (completion cb) (next_ref S) (FindOk (s\<lparr>path := Some q\<rparr>))
                      (emit [Probe (search_root h basePath)] (snd (new_Binding S)))) = None))"

text \<open>
  The arguments of the calls of the completion callback, in order, and those of the calls of
  \<^verbatim>\<open>onRuntimeInitialized\<close> by the bundle.
\<close>

fun fired :: "event list \<Rightarrow> jsval list list" where
  "fired [] = []"
| "fired (Fired args # es) = args # fired es"
| "fired (e # es) = fired es"

fun callbacks :: "event list \<Rightarrow> cb_args list" where
  "callbacks [] = []"
| "callbacks (Callback a # es) = a # callbacks es"
| "callbacks (e # es) = callbacks es"

subsection \<open>A host and a store for the examples\<close>

definition example_extname :: "string \<Rightarrow> string" where
  "example_extname p =
     (if CHR ''.'' \<in> set p then CHR ''.'' # rev (takeWhile (\<lambda>c. c \<noteq> CHR ''.'') (rev p)) else [])"

text \<open>
  \<open>example_host files loader\<close>: exactly the paths in \<open>files\<close> resolve, to themselves, and
  \<open>loader\<close> is \<^verbatim>\<open>require\<close>. A bundle does nothing while it is loaded. Path segments are
  joined with a slash. The caller's function \<open>0\<close> returns, every other one throws.
\<close>

definition example_host :: "string list \<Rightarrow> (string \<Rightarrow> js_error + jsval) \<Rightarrow> host" where
  "example_host files loader =
     \<lparr> extname = example_extname,
       path_resolve = join ''/'',
       require_resolve = (\<lambda>p. if p \<in> set files then Some p else None),
       require_load = loader,
       bundle_load = (\<lambda>p. []),
       env_NODE_BINDINGS_COMPILED_DIR = None,
       versions_node = ''6.9.1'',
       platform = ''linux'',
       arch = ''x64'',
       cwd = ''/work'',
       fn_outcome = (\<lambda>f args. if f = JFun 0 then None else Some (HostError 1)),
       callback_outcome = (\<lambda>f a. if f = 0 then None else Some (HostError 2)) \<rparr>"

definition empty_state :: js_state where
  "empty_state =
     \<lparr> objs = (\<lambda>r. []),
       bindings = (\<lambda>r. \<lparr>binary = None, lib = None\<rparr>),
       next_ref = 0,
       currentBinding = None,
       events = [] \<rparr>"

text \<open>
  A store with an object of the caller at address 1 and the exports of a loaded module at
  address 2, and the \<^verbatim>\<open>nbind.node\<close> entry as found under \<^verbatim>\<open>/proj/build/Release\<close>.
\<close>

definition example_store :: js_state where
  "example_store =
     \<lparr> objs = (\<lambda>r. if r = 1 then [(''a'', JNum 1), (''b'', JNum 2)]
                    else if r = 2 then [(''b'', JNum 20), (''c'', JNum 30)]
                    else []),
       bindings = (\<lambda>r. \<lparr>binary = None, lib = None\<rparr>),
       next_ref = 3,
       currentBinding = None,
       events = [] \<rparr>"

definition releaseNode :: ModuleSpec where
  "releaseNode = \<lparr>type = Node, ext = ''.node'', name = ''nbind.node'',
                   path = Some ''/proj/build/Release/nbind.node''\<rparr>"

text \<open>
  A store whose object 1 is a \<^verbatim>\<open>lib\<close> argument with a runtime-ready hook that returns and a
  \<^verbatim>\<open>ccall\<close> that raises, and the \<^verbatim>\<open>nbind.js\<close> entry as found under
  \<^verbatim>\<open>/proj/build/Release\<close>.
\<close>

definition asm_store :: js_state where
  "asm_store =
     \<lparr> objs = (\<lambda>r. if r = 1 then [(''onRuntimeInitialized'', JFun 0), (''ccall'', JFun 5)]
                    else []),
       bindings = (\<lambda>r. \<lparr>binary = None, lib = None\<rparr>),
       next_ref = 2,
       currentBinding = None,
       events = [] \<rparr>"

definition releaseEmcc :: ModuleSpec where
  "releaseEmcc = \<lparr>type = Emcc, ext = ''.js'', name = ''nbind.js'',
                   path = Some ''/proj/build/Release/nbind.js''\<rparr>"

text \<open>A callback of \<^verbatim>\<open>find\<close> that only returns.\<close>

definition accept :: find_cb where
  "accept a S = (None, S)"

text \<open>
  A host like \<open>example_host\<close> whose \<^verbatim>\<open>require\<close> returns \<^verbatim>\<open>undefined\<close> and whose bundles set
  \<^verbatim>\<open>ccall\<close> to the function \<open>0\<close>, which returns, and then call the runtime-ready hook, all
  before \<^verbatim>\<open>require\<close> ends.
\<close>

definition ready_host :: "string list \<Rightarrow> host" where
  "ready_host files =
     (example_host files (\<lambda>p. Inr JUndefined))
       \<lparr>bundle_load := (\<lambda>p. [SetModule ''ccall'' (JFun 0), RunReady []])\<rparr>"

text \<open>A callback of \<^verbatim>\<open>find\<close> that throws: the error it is given, or one of its own.\<close>

definition refuse :: find_cb where
  "refuse a S = (case a of FindErr err \<Rightarrow> (Some err, S) | FindOk spec \<Rightarrow> (Some (HostError 3), S))"

section \<open>Properties of the search\<close>

lemma emit_emit [simp]: "emit b (emit a S) = emit (a @ b) S"
  by (simp add: emit_def)

lemma emit_Nil [simp]: "emit [] S = S"
  by (simp add: emit_def)

lemma tryPaths_miss:
  "misses h (map (path_resolve h) pl) \<Longrightarrow>
   tryPaths h cb spec pl tried S =
     (Missed (tried @ map (path_resolve h) pl), emit (map Probe (map (path_resolve h) pl)) S)"
  by (induction pl arbitrary: tried S) (simp_all add: misses_def)

lemma tryPaths_hit:
  "misses h (map (path_resolve h) pre) \<Longrightarrow> require_resolve h (path_resolve h pp) = Some q \<Longrightarrow>
   tryPaths h cb spec (pre @ pp # post) tried S =
     (case cb (FindOk (spec\<lparr>path := Some q\<rparr>))
             (emit (map Probe (map (path_resolve h) pre @ [path_resolve h pp])) S) of
        (None, S') \<Rightarrow> (Found (spec\<lparr>path := Some q\<rparr>), S')
      | (Some err, S') \<Rightarrow> (Raised err, S'))"
  by (induction pre arbitrary: tried S) (simp_all add: misses_def)

lemma searchSpecs_miss:
  "misses h (map snd (candidates h root specs)) \<Longrightarrow>
   searchSpecs h root cb specs tried S =
     (Missed (tried @ map snd (candidates h root specs)),
      emit (map Probe (map snd (candidates h root specs))) S)"
proof (induction specs arbitrary: tried S)
  case Nil
  then show ?case by (simp add: candidates_def)
next
  case (Cons spec rest)
  have m1: "misses h (map (path_resolve h) (makeModulePathList h root (name spec)))"
    using Cons.prems by (simp add: candidates_def candidatePaths_def misses_def comp_def)
  have m2: "misses h (map snd (candidates h root rest))"
    using Cons.prems by (simp add: candidates_def misses_def)
  show ?case
    by (simp add: tryPaths_miss [OF m1] Cons.IH [OF m2] candidates_def candidatePaths_def comp_def)
qed

lemma candidates_Cons:
  "candidates h root (s # rest) = candidatePaths h root s @ candidates h root rest"
  by (simp add: candidates_def)

lemma candidates_append:
  "candidates h root (a @ b) = candidates h root a @ candidates h root b"
  by (simp add: candidates_def)

lemma misses_append: "misses h (a @ b) = (misses h a \<and> misses h b)"
  by (simp add: misses_def)

lemma map_snd_candidatePaths:
  "map snd (candidatePaths h root s) = map (path_resolve h) (makeModulePathList h root (name s))"
  by (simp add: candidatePaths_def comp_def)

lemma searchSpecs_hit:
  assumes "misses h (map snd (candidates h root spre))"
    and "makeModulePathList h root (name s) = tpre @ pp # tpost"
    and "misses h (map (path_resolve h) tpre)"
    and "require_resolve h (path_resolve h pp) = Some q"
  shows "searchSpecs h root cb (spre @ s # spost) tried S =
     (case cb (FindOk (s\<lparr>path := Some q\<rparr>))
             (emit (map Probe (map snd (candidates h root spre) @ map (path_resolve h) tpre @ [path_resolve h pp])) S) of
        (None, S') \<Rightarrow> (Found (s\<lparr>path := Some q\<rparr>), S')
      | (Some err, S') \<Rightarrow> (Raised err, S'))"
  using assms(1)
proof (induction spre arbitrary: tried S)
  case Nil
  show ?case
    by (simp add: assms(2) tryPaths_hit [OF assms(3) assms(4)] candidates_def split: prod.splits option.splits)
next
  case (Cons a spre)
  have m1: "misses h (map (path_resolve h) (makeModulePathList h root (name a)))"
    using Cons.prems by (simp add: candidates_Cons misses_append map_snd_candidatePaths)
  have m2: "misses h (map snd (candidates h root spre))"
    using Cons.prems by (simp add: candidates_Cons misses_append)
  show ?case
    by (simp add: tryPaths_miss [OF m1] Cons.IH [OF m2] candidates_Cons map_snd_candidatePaths)
qed

lemma fastPath_miss:
  "require_resolve h root = None \<or> filter (\<lambda>s. ext s = e) specs = [] \<Longrightarrow>
   fastPath h root e cb specs tried S =
     ((None, tried @ replicate (length (filter (\<lambda>s. ext s = e) specs)) root),
      emit (map Probe (replicate (length (filter (\<lambda>s. ext s = e) specs)) root)) S)"
proof (induction specs arbitrary: tried S)
  case Nil
  then show ?case by simp
next
  case (Cons a specs)
  then show ?case
    by (cases "e = ext a") (auto simp: replicate_append_same split: if_splits)
qed

lemma fastPath_hit:
  assumes "require_resolve h root = Some q"
    and "List.find (\<lambda>s. ext s = e) specs = Some s1"
    and "fst (cb (FindOk (s1\<lparr>path := Some q\<rparr>)) (emit [Probe root] S)) = None"
  shows "fastPath h root e cb specs tried S =
     ((Some (s1\<lparr>path := Some q\<rparr>), tried), snd (cb (FindOk (s1\<lparr>path := Some q\<rparr>)) (emit [Probe root] S)))"
  using assms(2,3)
proof (induction specs arbitrary: tried)
  case Nil
  then show ?case by simp
next
  case (Cons a specs)
  show ?case
  proof (cases "ext a = e")
    case True
    with Cons.prems have "s1 = a" by simp
    with True Cons.prems(2) show ?thesis
      by (cases "cb (FindOk (a\<lparr>path := Some q\<rparr>)) (emit [Probe root] S)") (auto simp: assms(1))
  next
    case False
    with Cons show ?thesis by auto
  qed
qed

lemma findCompiledModule_hit:
  assumes "require_resolve h root = None \<or> filter (\<lambda>s. ext s = extname h root) (spre @ s # spost) = []"
    and "misses h (map snd (candidates h root spre))"
    and "makeModulePathList h root (name s) = tpre @ pp # tpost"
    and "misses h (map (path_resolve h) tpre)"
    and "require_resolve h (path_resolve h pp) = Some q"
  shows "findCompiledModule h root (spre @ s # spost) cb S =
     (case cb (FindOk (s\<lparr>path := Some q\<rparr>))
             (emit (map Probe (fastTried h root (spre @ s # spost) @ map snd (candidates h root spre)
                               @ map (path_resolve h) tpre @ [path_resolve h pp])) S) of
        (None, S') \<Rightarrow> (Inr (Some (s\<lparr>path := Some q\<rparr>)), S')
      | (Some err, S') \<Rightarrow> (Inl err, S'))"
  unfolding findCompiledModule_def fastPath_miss [OF assms(1)]
  by (simp add: searchSpecs_hit [OF assms(2-5)] fastTried_def split: prod.splits option.splits)

lemma findCompiledModule_miss:
  assumes "require_resolve h root = None \<or> filter (\<lambda>s. ext s = extname h root) specs = []"
    and "misses h (map snd (candidates h root specs))"
  shows "findCompiledModule h root specs cb S =
     (case cb (FindErr (locateError (fastTried h root specs @ map snd (candidates h root specs))))
             (emit (map Probe (fastTried h root specs @ map snd (candidates h root specs))) S) of
        (None, S') \<Rightarrow> (Inr None, S')
      | (Some err, S') \<Rightarrow> (Inl err, S'))"
  unfolding findCompiledModule_def fastPath_miss [OF assms(1)]
  by (simp add: searchSpecs_miss [OF assms(2)] fastTried_def)

lemma registry_eq: "registry = [nodeSpec] @ emccSpec # []"
  by (simp add: registry_def nodeSpec_def emccSpec_def)

lemmas example_simps =
  example_host_def example_extname_def makeModulePathList_def compiledDir_def candidates_def
  candidatePaths_def misses_def fastTried_def nodeSpec_def emccSpec_def accept_def empty_state_def
  emit_def

lemma candidates_registry:
  "map snd (candidates h root registry) =
     map (path_resolve h) (makeModulePathList h root ''nbind.node'')
     @ map (path_resolve h) (makeModulePathList h root ''nbind.js'')"
  by (simp add: candidates_def candidatePaths_def registry_def comp_def)

lemma fastTried_registry:
  "fastTried h root registry =
     (if extname h root = ''.node'' \<or> extname h root = ''.js'' then [root] else [])"
  by (auto simp: fastTried_def registry_def)

section \<open>Properties of the store and of \<^verbatim>\<open>initNode\<close>\<close>

lemma set_prop_fields [simp]:
  "bindings (set_prop S r k v) = bindings S"
  "next_ref (set_prop S r k v) = next_ref S"
  "events (set_prop S r k v) = events S"
  "currentBinding (set_prop S r k v) = currentBinding S"
  by (simp_all add: set_prop_def)

lemma set_prop_objs_other [simp]: "r' \<noteq> r \<Longrightarrow> objs (set_prop S r k v) r' = objs S r'"
  by (simp add: set_prop_def)

lemma delete_prop_objs_other [simp]: "r' \<noteq> r \<Longrightarrow> objs (delete_prop S r k) r' = objs S r'"
  by (simp add: delete_prop_def)

lemma map_of_set_prop [simp]:
  "map_of (objs (set_prop S r k v) r) = (map_of (objs S r))(k \<mapsto> v)"
  by (simp add: set_prop_def update_conv')

lemma get_prop_other [simp]: "r' \<noteq> r \<Longrightarrow> get_prop (set_prop S r k v) r' k' = get_prop S r' k'"
  by (simp add: get_prop_def)

lemma emit_fields [simp]:
  "objs (emit es S) = objs S"
  "bindings (emit es S) = bindings S"
  "next_ref (emit es S) = next_ref S"
  "currentBinding (emit es S) = currentBinding S"
  "events (emit es S) = events S @ es"
  by (simp_all add: emit_def)

lemma keys_emit [simp]: "keys (emit es S) r = keys S r"
  by (simp add: keys_def)

lemma get_prop_emit [simp]: "get_prop (emit es S) r k = get_prop S r k"
  by (simp add: get_prop_def)

lemma copy_keys_fields [simp]:
  "bindings (copy_keys dst src ks S) = bindings S"
  "next_ref (copy_keys dst src ks S) = next_ref S"
  "events (copy_keys dst src ks S) = events S"
  "currentBinding (copy_keys dst src ks S) = currentBinding S"
  by (induction ks arbitrary: S) simp_all

lemma copy_keys_objs_other: "r \<noteq> dst \<Longrightarrow> objs (copy_keys dst src ks S) r = objs S r"
  by (induction ks arbitrary: S) simp_all

lemma copy_keys_map_of:
  "dst \<noteq> src \<Longrightarrow>
   map_of (objs (copy_keys dst src ks S) dst) k =
     (if k \<in> set ks then Some (get_prop S src k) else map_of (objs S dst) k)"
  by (induction ks arbitrary: S) auto

lemma set_prop_same:
  "k \<in> set (keys S r) \<Longrightarrow> set_prop S r k (get_prop S r k) = S"
proof -
  assume "k \<in> set (keys S r)"
  then obtain v where v: "map_of (objs S r) k = Some v"
    by (auto simp: keys_def weak_map_of_SomeI dest!: weak_map_of_SomeI)
  then have "AList.update k (get_prop S r k) (objs S r) = objs S r"
    by (simp add: get_prop_def update_triv)
  then show ?thesis by (simp add: set_prop_def)
qed

lemma copy_keys_self:
  "set ks \<subseteq> set (keys S r) \<Longrightarrow> copy_keys r r ks S = S"
  by (induction ks) (simp_all add: set_prop_same)

lemma get_prop_key:
  "k \<in> set (keys S r) \<Longrightarrow> Some (get_prop S r k) = map_of (objs S r) k"
proof -
  assume "k \<in> set (keys S r)"
  then obtain v where v: "map_of (objs S r) k = Some v"
    by (auto simp: keys_def dest!: weak_map_of_SomeI)
  then show ?thesis by (simp add: get_prop_def)
qed

text \<open>Copying all keys of \<open>src\<close>, whether or not \<open>dst\<close> is the same object.\<close>

lemma copy_all_keys_map_of:
  "map_of (objs (copy_keys dst src (keys S src) S) dst) k =
     (if k \<in> set (keys S src) then map_of (objs S src) k else map_of (objs S dst) k)"
proof (cases "dst = src")
  case True
  then show ?thesis by (simp add: copy_keys_self)
next
  case False
  then show ?thesis by (simp add: copy_keys_map_of get_prop_key)
qed

lemma init_found_FindOk:
  "init_found h lib0 cb b (FindOk spec) S =
     (if type spec = Emcc then initAsm h b cb (populate b spec lib0 S)
      else initNode h b cb (populate b spec lib0 S))"
  by (cases lib0) (simp_all add: init_found_def populate_def new_object_def Let_def)

lemma populate_fields [simp]:
  "events (populate b spec lib0 S) = events S"
  "binary (bindings (populate b spec lib0 S) b) = Some spec"
  "lib (bindings (populate b spec lib0 S) b) = Some (exports_ref lib0 S)"
  "objs (populate b spec lib0 S) = (case lib0 of Some r \<Rightarrow> objs S | None \<Rightarrow> (objs S)(next_ref S := []))"
  by (cases lib0; simp add: populate_def exports_ref_def new_object_def)+

lemma not_object_iff: "(\<not> truthy v \<or> typeof v \<noteq> ''object'') = (\<forall>m. v \<noteq> JObj m)"
  by (cases v) simp_all

lemma callbacks_append [simp]: "callbacks (xs @ ys) = callbacks xs @ callbacks ys"
  by (induction xs rule: callbacks.induct) simp_all

lemma invoke_callback_snd [simp]:
  "snd (invoke_callback h cb a S) = emit [Callback a] S"
  by (simp add: invoke_callback_def)

lemma init_found_node:
  assumes "type spec = Node" and "path spec = Some p" and "require_load h p = Inr v"
  shows "init_found h lib0 cb b (FindOk spec) S =
     (case v of
        JObj m \<Rightarrow>
          invoke_callback h cb (CbOk b)
            (copy_keys (exports_ref lib0 S) m (keys (populate b spec lib0 S) m)
               (emit [Load p] (populate b spec lib0 S)))
      | _ \<Rightarrow>
          invoke_callback h cb (CbErr (LoadError ''Error loading addon''))
            (emit [Load p] (populate b spec lib0 S)))"
  using assms
  by (cases v) (simp_all add: init_found_FindOk initNode_def binary_path_def)

lemma copy_keys_fresh_map_of:
  assumes "dst \<noteq> src" and "objs S dst = []"
  shows "map_of (objs (copy_keys dst src (keys S src) S) dst) = map_of (objs S src)"
proof
  fix k
  show "map_of (objs (copy_keys dst src (keys S src) S) dst) k = map_of (objs S src) k"
  proof (cases "k \<in> set (keys S src)")
    case True
    then show ?thesis by (simp add: copy_all_keys_map_of)
  next
    case False
    then have "map_of (objs S src) k = None"
      by (simp add: keys_def map_of_eq_None_iff)
    with False show ?thesis by (simp add: copy_all_keys_map_of assms(2))
  qed
qed

section \<open>Properties of \<^verbatim>\<open>initAsm\<close> and of the runtime-ready wrapper\<close>

lemma get_prop_set_prop:
  "get_prop (set_prop S r k v) r k' = (if k' = k then v else get_prop S r k')"
  by (simp add: get_prop_def)

lemma get_prop_populate:
  "get_prop (populate b spec lib0 S) (exports_ref lib0 S) k =
     (case lib0 of Some r \<Rightarrow> get_prop S r k | None \<Rightarrow> JUndefined)"
  by (cases lib0) (simp_all add: get_prop_def exports_ref_def)

lemma binary_path_populate:
  "path spec = Some p \<Longrightarrow> binary_path (populate b spec lib0 S) b = Inr p"
  by (simp add: binary_path_def)

lemma init_found_emcc:
  assumes "type spec = Emcc" and "path spec = Some p"
  shows "init_found h lib0 cb b (FindOk spec) S = require_bundle h p (asm_ready b spec lib0 cb S)"
  using assms
  by (simp add: init_found_FindOk initAsm_def Let_def binary_path_def get_prop_set_prop
        get_prop_populate original_hook_def asm_ready_def)

lemma get_prop_currentBinding [simp]:
  "get_prop (S\<lparr>currentBinding := x\<rparr>) r k = get_prop S r k"
  by (simp add: get_prop_def)

lemma asm_ready_fields [simp]:
  "events (asm_ready b spec lib0 c S) = events S"
  "bindings (asm_ready b spec lib0 c S) = bindings (populate b spec lib0 S)"
  "currentBinding (asm_ready b spec lib0 c S) = Some b"
  "get_prop (asm_ready b spec lib0 c S) (exports_ref lib0 S) ''onRuntimeInitialized'' =
     JRuntimeInit (original_hook lib0 S) c b (exports_ref lib0 S)"
  by (simp_all add: asm_ready_def get_prop_set_prop)

lemma call_host_ccall:
  "call_host h c [JStr ''nbind_init''] T =
     (ccall_outcome h c,
      emit (if typeof c = ''function'' then [Call c [JStr ''nbind_init'']] else []) T)"
  by (simp add: call_host_def ccall_outcome_def)

lemma call_host_JFun:
  "call_host h (JFun f) args T = (fn_outcome h (JFun f) args, emit [Call (JFun f) args] T)"
  by (simp add: call_host_def)

text \<open>One call of the wrapper, when the hook it replaced is absent or returns.\<close>

lemma wrapper_run:
  assumes "\<not> truthy orig \<or> (\<exists>f. orig = JFun f) \<and> fn_outcome h orig args = None"
  shows "call_value h (JRuntimeInit orig cb b l) args T =
           invoke_callback h cb
             (case ccall_outcome h (get_prop T l ''ccall'') of
                Some err \<Rightarrow> CbErr err | None \<Rightarrow> CbOk b)
             (emit ((if truthy orig then [Call orig args] else [])
                    @ (if typeof (get_prop T l ''ccall'') = ''function''
                       then [Call (get_prop T l ''ccall'') [JStr ''nbind_init'']] else [])) T)"
proof (cases "truthy orig")
  case False
  then show ?thesis
    by (cases "ccall_outcome h (get_prop T l ''ccall'')") (simp_all add: call_host_ccall)
next
  case True
  with assms obtain f where f: "orig = JFun f" and r: "fn_outcome h orig args = None"
    by auto
  show ?thesis
    using r
    by (cases "ccall_outcome h (get_prop T l ''ccall'')")
       (simp_all add: f call_host_ccall call_host_JFun)
qed

lemma wrapper_events:
  assumes "\<not> truthy orig \<or> (\<exists>f. orig = JFun f) \<and> fn_outcome h orig args = None"
  shows "events (snd (call_value h (JRuntimeInit orig cb b l) args T)) =
           events T
           @ (if truthy orig then [Call orig args] else [])
           @ (if typeof (get_prop T l ''ccall'') = ''function''
              then [Call (get_prop T l ''ccall'') [JStr ''nbind_init'']] else [])
           @ [Callback (case ccall_outcome h (get_prop T l ''ccall'') of
                          Some err \<Rightarrow> CbErr err | None \<Rightarrow> CbOk b)]"
  unfolding wrapper_run [OF assms] by simp

lemma fired_append [simp]: "fired (xs @ ys) = fired xs @ fired ys"
  by (induction xs rule: fired.induct) simp_all

lemma getLib_eq:
  "currentBinding T = Some b \<Longrightarrow> lib (bindings T b) = Some l \<Longrightarrow> getLib T = Inr l"
  by (simp add: getLib_def)

lemma never_raises_invoke: "never_raises h c \<Longrightarrow> fst (invoke_callback h c a T) = None"
  by (auto simp: never_raises_def invoke_callback_def)

lemma run_bundle_effect:
  assumes kept: "hook_kept acts"
    and ret: "hook_returns h orig"
    and cur: "currentBinding T = Some b"
    and lb: "lib (bindings T b) = Some l"
    and hk: "get_prop T l ''onRuntimeInitialized'' = JRuntimeInit orig c b l"
  shows "\<exists>es. events (snd (run_bundle h acts T)) = events T @ es
           \<and> length (callbacks es) = length (fired es)
           \<and> (\<forall>b'. CbOk b' \<in> set (callbacks es) \<longrightarrow> b' = b)
           \<and> bindings (snd (run_bundle h acts T)) = bindings T
           \<and> currentBinding (snd (run_bundle h acts T)) = Some b
           \<and> get_prop (snd (run_bundle h acts T)) l ''onRuntimeInitialized'' = JRuntimeInit orig c b l
           \<and> (never_raises h c \<longrightarrow> fst (run_bundle h acts T) = None)"
  using kept cur lb hk
proof (induction acts arbitrary: T)
  case Nil
  then show ?case by simp
next
  case (Cons a acts)
  have g: "getLib T = Inr l"
    using Cons.prems by (simp add: getLib_eq)
  have kept': "hook_kept acts"
    using Cons.prems(1) by (simp add: hook_kept_def)
  show ?case
  proof (cases a)
    case (SetModule k v)
    with Cons.prems(1) have k: "k \<noteq> ''onRuntimeInitialized''"
      by (simp add: hook_kept_def)
    let ?T1 = "set_prop T l k v"
    have 1: "currentBinding ?T1 = Some b" "lib (bindings ?T1 b) = Some l"
      "get_prop ?T1 l ''onRuntimeInitialized'' = JRuntimeInit orig c b l"
      using Cons.prems k by (simp_all add: get_prop_set_prop)
    from Cons.IH [OF kept' 1] show ?thesis
      by (simp add: SetModule g)
  next
    case (RunReady args)
    let ?x = "case ccall_outcome h (get_prop T l ''ccall'') of
                Some err \<Rightarrow> CbErr err | None \<Rightarrow> CbOk b"
    let ?ev = "[Fired args] @ (if truthy orig then [Call orig args] else [])
                    @ (if typeof (get_prop T l ''ccall'') = ''function''
                       then [Call (get_prop T l ''ccall'') [JStr ''nbind_init'']] else [])"
    have pre: "\<not> truthy orig \<or> (\<exists>f. orig = JFun f) \<and> fn_outcome h orig args = None"
      using ret by (auto simp: hook_returns_def)
    have run: "call_value h (JRuntimeInit orig c b l) args (emit [Fired args] T) =
                 invoke_callback h c ?x (emit ?ev T)"
      unfolding wrapper_run [OF pre] by simp
    let ?T1 = "emit (?ev @ [Callback ?x]) T"
    have step: "run_bundle h (a # acts) T =
                  (case call_value h (JRuntimeInit orig c b l) args (emit [Fired args] T) of
                     (Some err, S') \<Rightarrow> (Some err, S')
                   | (None, S') \<Rightarrow> run_bundle h acts S')"
      by (simp add: RunReady g Cons.prems(4) del: call_value.simps)
    have inv: "invoke_callback h c ?x (emit ?ev T) =
                 (fst (invoke_callback h c ?x (emit ?ev T)), ?T1)"
      by (simp add: invoke_callback_def)
    have cb1: "callbacks (?ev @ [Callback ?x]) = [?x]" and f1: "fired (?ev @ [Callback ?x]) = [args]"
      by simp_all
    have ok: "\<forall>b'. CbOk b' = ?x \<longrightarrow> b' = b"
      by (simp split: option.splits)
    show ?thesis
    proof (cases "fst (invoke_callback h c ?x (emit ?ev T))")
      case (Some err)
      then have nr: "\<not> never_raises h c"
        using never_raises_invoke [of h c ?x "emit ?ev T"] by auto
      have r: "run_bundle h (a # acts) T = (Some err, ?T1)"
        unfolding step run by (subst inv) (simp only: Some option.case prod.case)
      have "events ?T1 = events T @ (?ev @ [Callback ?x])
           \<and> length (callbacks (?ev @ [Callback ?x])) = length (fired (?ev @ [Callback ?x]))
           \<and> (\<forall>b'. CbOk b' \<in> set (callbacks (?ev @ [Callback ?x])) \<longrightarrow> b' = b)
           \<and> bindings ?T1 = bindings T
           \<and> currentBinding ?T1 = Some b
           \<and> get_prop ?T1 l ''onRuntimeInitialized'' = JRuntimeInit orig c b l
           \<and> (never_raises h c \<longrightarrow> fst (Some err, ?T1) = None)"
        unfolding cb1 f1 using ok nr Cons.prems by auto
      then show ?thesis
        unfolding r snd_conv fst_conv by blast
    next
      case None
      have r: "run_bundle h (a # acts) T = run_bundle h acts ?T1"
        unfolding step run by (subst inv) (simp only: None option.case prod.case)
      have 1: "currentBinding ?T1 = Some b" "lib (bindings ?T1 b) = Some l"
        "get_prop ?T1 l ''onRuntimeInitialized'' = JRuntimeInit orig c b l"
        using Cons.prems by simp_all
      from Cons.IH [OF kept' 1] obtain es where
        es: "events (snd (run_bundle h acts ?T1)) = events ?T1 @ es"
        "length (callbacks es) = length (fired es)"
        "\<forall>b'. CbOk b' \<in> set (callbacks es) \<longrightarrow> b' = b"
        "bindings (snd (run_bundle h acts ?T1)) = bindings ?T1"
        "currentBinding (snd (run_bundle h acts ?T1)) = Some b"
        "get_prop (snd (run_bundle h acts ?T1)) l ''onRuntimeInitialized'' = JRuntimeInit orig c b l"
        "never_raises h c \<longrightarrow> fst (run_bundle h acts ?T1) = None"
        by blast
      have "events (snd (run_bundle h acts ?T1)) = events T @ ((?ev @ [Callback ?x]) @ es)
           \<and> length (callbacks ((?ev @ [Callback ?x]) @ es)) = length (fired ((?ev @ [Callback ?x]) @ es))
           \<and> (\<forall>b'. CbOk b' \<in> set (callbacks ((?ev @ [Callback ?x]) @ es)) \<longrightarrow> b' = b)"
        using es(1,2,3) ok
        by (simp only: callbacks_append fired_append cb1 f1 emit_fields append_assoc) auto
      with es(4-7) show ?thesis
        unfolding r by (intro exI [where x = "(?ev @ [Callback ?x]) @ es"]) simp
    qed
  qed
qed

section \<open>Properties of \<^verbatim>\<open>init\<close>\<close>





lemma init_eq:
  "init h basePath lib0 cb S =
     (case findCompiledModule h (search_root h basePath) registry
             (init_found h lib0 (completion cb) (next_ref S)) (snd (new_Binding S)) of
        (Inl err, S2) \<Rightarrow> (Inl err, S2)
      | (Inr r, S2) \<Rightarrow> (Inr (next_ref S), S2))"
  by (simp add: init_def find_nbind_def completion_def search_root_def new_Binding_def Let_def)

lemma snd_init:
  "snd (init h basePath lib0 cb S) =
     snd (findCompiledModule h (search_root h basePath) registry
            (init_found h lib0 (completion cb) (next_ref S)) (snd (new_Binding S)))"
  by (simp add: init_eq split: prod.splits sum.splits)

lemma snd_deliver [simp]: "snd (deliver cb a T) = snd (cb a T)"
  by (simp add: deliver_def split: prod.splits option.splits)

lemma fst_deliver:
  "fst (cb a T) = None \<Longrightarrow> \<exists>r. fst (deliver cb a T) = Inr r"
  by (cases "cb a T") (simp add: deliver_def)

lemma callbacks_Probe [simp]: "callbacks (map Probe ps) = []"
  by (induction ps) simp_all

lemma new_Binding_fields [simp]:
  "events (snd (new_Binding S)) = events S"
  "objs (snd (new_Binding S)) = objs S"
  "next_ref (snd (new_Binding S)) = Suc (next_ref S)"
  "bindings (snd (new_Binding S)) (next_ref S) = \<lparr>binary = None, lib = None\<rparr>"
  by (simp_all add: new_Binding_def)


lemma error_truthy_locateError [simp]: "error_truthy (locateError tries)"
  by (simp add: locateError_def)

lemma original_hook_cong:
  "objs T = objs S \<Longrightarrow> original_hook lib0 T = original_hook lib0 S"
  by (simp add: original_hook_def get_prop_def split: option.splits)

lemma registry_type: "s \<in> set registry \<Longrightarrow> type s = Node \<or> type s = Emcc"
  by (auto simp: registry_def)


lemma init_found_emcc_outcome:
  assumes t: "type spec = Emcc" and p: "path spec = Some p"
    and kept: "hook_kept (bundle_load h p)"
    and ret: "hook_returns h (original_hook lib0 S)"
  shows "\<exists>es. events (snd (init_found h lib0 c b (FindOk spec) S)) = events S @ es
           \<and> length (callbacks es) = length (fired es)
           \<and> (\<forall>b'. CbOk b' \<in> set (callbacks es) \<longrightarrow> b' = b)
           \<and> binary (bindings (snd (init_found h lib0 c b (FindOk spec) S)) b) = Some spec
           \<and> lib (bindings (snd (init_found h lib0 c b (FindOk spec) S)) b) = Some (exports_ref lib0 S)
           \<and> get_prop (snd (init_found h lib0 c b (FindOk spec) S)) (exports_ref lib0 S)
                ''onRuntimeInitialized''
               = JRuntimeInit (original_hook lib0 S) c b (exports_ref lib0 S)
           \<and> (never_raises h c \<and> (\<exists>v. require_load h p = Inr v)
                \<longrightarrow> fst (init_found h lib0 c b (FindOk spec) S) = None)"
proof -
  let ?R = "emit [Load p] (asm_ready b spec lib0 c S)"
  let ?l = "exports_ref lib0 S"
  let ?W = "JRuntimeInit (original_hook lib0 S) c b ?l"
  have 1: "currentBinding ?R = Some b" "lib (bindings ?R b) = Some ?l"
    "get_prop ?R ?l ''onRuntimeInitialized'' = ?W"
    by simp_all
  from run_bundle_effect [OF kept ret 1] obtain es where
    es: "events (snd (run_bundle h (bundle_load h p) ?R)) = events ?R @ es"
      "length (callbacks es) = length (fired es)"
      "\<forall>b'. CbOk b' \<in> set (callbacks es) \<longrightarrow> b' = b"
      "bindings (snd (run_bundle h (bundle_load h p) ?R)) = bindings ?R"
      "get_prop (snd (run_bundle h (bundle_load h p) ?R)) ?l ''onRuntimeInitialized'' = ?W"
      "never_raises h c \<longrightarrow> fst (run_bundle h (bundle_load h p) ?R) = None"
    by blast
  have s: "snd (init_found h lib0 c b (FindOk spec) S) = snd (run_bundle h (bundle_load h p) ?R)"
    unfolding init_found_emcc [OF t p]
    by (simp add: require_bundle_def split: prod.splits option.splits sum.splits)
  have f: "never_raises h c \<and> (\<exists>v. require_load h p = Inr v)
             \<longrightarrow> fst (init_found h lib0 c b (FindOk spec) S) = None"
    unfolding init_found_emcc [OF t p]
    using es(6) by (auto simp: require_bundle_def split: prod.splits option.splits sum.splits)
  have "events (snd (init_found h lib0 c b (FindOk spec) S)) = events S @ ([Load p] @ es)
        \<and> length (callbacks ([Load p] @ es)) = length (fired ([Load p] @ es))
        \<and> (\<forall>b'. CbOk b' \<in> set (callbacks ([Load p] @ es)) \<longrightarrow> b' = b)"
    using es(1-3) by (simp add: s)
  moreover have "binary (bindings (snd (init_found h lib0 c b (FindOk spec) S)) b) = Some spec
      \<and> lib (bindings (snd (init_found h lib0 c b (FindOk spec) S)) b) = Some ?l
      \<and> get_prop (snd (init_found h lib0 c b (FindOk spec) S)) ?l ''onRuntimeInitialized'' = ?W"
    using es(4,5) by (simp add: s)
  ultimately show ?thesis using f by blast
qed

lemma never_raises_completion:
  "never_raises h (completion cb) = (\<exists>f. cb = Some f \<and> (\<forall>a. callback_outcome h f a = None))"
  by (cases cb) (auto simp: never_raises_def completion_def)

lemma init_found_node_outcome:
  assumes t: "type spec = Node" and p: "path spec = Some p" and v: "require_load h p = Inr v"
  shows "events (snd (init_found h lib0 c b (FindOk spec) T)) =
           events T @ [Load p, Callback (if \<not> truthy v \<or> typeof v \<noteq> ''object''
                                         then CbErr (LoadError ''Error loading addon'') else CbOk b)]
       \<and> fst (init_found h lib0 c b (FindOk spec) T) =
           fst (invoke_callback h c (if \<not> truthy v \<or> typeof v \<noteq> ''object''
                                      then CbErr (LoadError ''Error loading addon'') else CbOk b) T)
       \<and> binary (bindings (snd (init_found h lib0 c b (FindOk spec) T)) b) = Some spec
       \<and> lib (bindings (snd (init_found h lib0 c b (FindOk spec) T)) b) = Some (exports_ref lib0 T)"
  unfolding init_found_node [OF t p v]
  by (cases v) (simp_all add: invoke_callback_def)


lemma init_found_returns:
  assumes load: "\<forall>p. \<exists>v. require_load h p = Inr v"
    and nr: "never_raises h c"
    and kept: "\<forall>p. hook_kept (bundle_load h p)"
    and ret: "hook_returns h (original_hook lib0 T)"
  shows "fst (init_found h lib0 c b (FindOk (s\<lparr>path := Some q\<rparr>)) T) = None"
proof -
  from load obtain v where v: "require_load h q = Inr v" by blast
  have p: "path (s\<lparr>path := Some q\<rparr>) = Some q" by simp
  show ?thesis
  proof (cases "type s")
    case Node
    then have t: "type (s\<lparr>path := Some q\<rparr>) = Node" by simp
    from init_found_node_outcome [OF t p v, of lib0 c b T] never_raises_invoke [OF nr]
    show ?thesis by simp
  next
    case Emcc
    then have t: "type (s\<lparr>path := Some q\<rparr>) = Emcc" by simp
    from init_found_emcc_outcome [OF t p spec [OF kept] ret, of c b] nr v
    show ?thesis by blast
  qed
qed


lemma find_Some_filter_mem:
  "List.find P xs = Some x \<Longrightarrow> x \<in> set xs \<and> P x"
  by (induction xs) (auto split: if_splits)

lemma fast_path_returns_miss:
  "require_resolve h (search_root h basePath) = None
     \<or> filter (\<lambda>s. ext s = extname h (search_root h basePath)) registry = []
   \<Longrightarrow> fast_path_returns h basePath lib0 cb S"
  by (auto simp: fast_path_returns_def filter_empty_conv split: option.splits
        dest: find_Some_filter_mem)

lemma fast_path_returns_callback:
  assumes "\<exists>f. cb = Some f \<and> (\<forall>a. callback_outcome h f a = None)"
    and "\<forall>p. \<exists>v. require_load h p = Inr v"
    and kept: "\<forall>p. hook_kept (bundle_load h p)"
    and ret: "hook_returns h (original_hook lib0 S)"
  shows "fast_path_returns h basePath lib0 cb S"
proof -
  have oh: "original_hook lib0 (emit [Probe (search_root h basePath)] (snd (new_Binding S)))
              = original_hook lib0 S"
    by (rule original_hook_cong) simp
  have "\<And>s q. fst (init_found h lib0 (completion cb) (next_ref S) (FindOk (s\<lparr>path := Some q\<rparr>))
                      (emit [Probe (search_root h basePath)] (snd (new_Binding S)))) = None"
    by (rule init_found_returns) (simp_all add: assms never_raises_completion oh)
  then show ?thesis
    by (simp add: fast_path_returns_def split: option.splits)
qed

lemma fast_path_returns_addon:
  assumes e: "extname h (search_root h basePath) = ''.node''"
    and l: "\<forall>q. require_resolve h (search_root h basePath) = Some q
                \<longrightarrow> (\<exists>m. require_load h q = Inr (JObj m))"
    and c: "cb = None \<or> (\<exists>f. cb = Some f \<and> callback_outcome h f (CbOk (next_ref S)) = None)"
  shows "fast_path_returns h basePath lib0 cb S"
proof -
  have f: "List.find (\<lambda>s. ext s = ''.node'') registry = Some nodeSpec"
    by (simp add: registry_def nodeSpec_def)
  have t: "type (nodeSpec\<lparr>path := Some q\<rparr>) = Node" for q
    by (simp add: nodeSpec_def)
  have p: "path (nodeSpec\<lparr>path := Some q\<rparr>) = Some q" for q by simp
  {
    fix q assume "require_resolve h (search_root h basePath) = Some q"
    with l obtain m where m: "require_load h q = Inr (JObj m)" by blast
    from init_found_node_outcome [OF t p m]
    have "fst (init_found h lib0 (completion cb) (next_ref S) (FindOk (nodeSpec\<lparr>path := Some q\<rparr>))
                      (emit [Probe (search_root h basePath)] (snd (new_Binding S)))) = None"
      using c by (auto simp: invoke_callback_def completion_def)
  }
  then show ?thesis
    by (simp add: fast_path_returns_def e f split: option.splits)
qed



lemma fired_Probe [simp]: "fired (map Probe ps) = []"
  by (induction ps) simp_all


lemmas run_simps =
  init_def new_Binding_def new_object_def find_nbind_def findCompiledModule_def registry_def
  init_found_def initNode_def initAsm_def binary_path_def invoke_callback_def keys_def
  get_prop_def set_prop_def locateError_def Let_def

lemmas init_simps = run_simps require_bundle_def getLib_def call_host_def ready_host_def
  fast_path_returns_def search_root_def completion_def hook_kept_def hook_returns_def
  original_hook_def

section \<open>The claims about the search\<close>

text \<open>
  C1, as amended. When \<^verbatim>\<open>build/Debug/<name>\<close> and \<^verbatim>\<open>build/Release/<name>\<close> both resolve
  for the same registry entry and nothing tried before them resolves (the fast path, every
  path of the earlier entries, \<^verbatim>\<open><name>\<close> and \<^verbatim>\<open>build/<name>\<close> under the root), the search
  delivers the \<^verbatim>\<open>build/Debug\<close> candidate, after probing exactly the paths up to it:
  \<^verbatim>\<open>build/Debug\<close> comes before \<^verbatim>\<open>build/Release\<close> in the path list, and the
  \<^verbatim>\<open>build/Release\<close> path is not probed.
\<close>

theorem build_Debug_precedes_build_Release:
  assumes "require_resolve h root = None \<or> filter (\<lambda>x. ext x = extname h root) (spre @ s # spost) = []"
    and "misses h (map snd (candidates h root spre))"
    and "misses h [path_resolve h [root, name s], path_resolve h [root, ''build'', name s]]"
    and "require_resolve h (path_resolve h [root, ''build'', ''Debug'', name s]) = Some q"
    and "require_resolve h (path_resolve h [root, ''build'', ''Release'', name s]) = Some q'"
  shows "findCompiledModule h root (spre @ s # spost) cb S =
           (case cb (FindOk (s\<lparr>path := Some q\<rparr>))
                   (emit (map Probe (fastTried h root (spre @ s # spost)
                                     @ map snd (candidates h root spre)
                                     @ [path_resolve h [root, name s],
                                        path_resolve h [root, ''build'', name s],
                                        path_resolve h [root, ''build'', ''Debug'', name s]])) S) of
              (None, S') \<Rightarrow> (Inr (Some (s\<lparr>path := Some q\<rparr>)), S')
            | (Some err, S') \<Rightarrow> (Inl err, S'))"
proof -
  have split: "makeModulePathList h root (name s) =
      [[root, name s], [root, ''build'', name s]] @ [root, ''build'', ''Debug'', name s]
      # [[root, ''build'', ''Release'', name s], [root, ''out'', ''Debug'', name s],
         [root, ''Debug'', name s], [root, ''out'', ''Release'', name s], [root, ''Release'', name s],
         [root, ''build'', ''default'', name s],
         [root, compiledDir h, versions_node h, platform h, arch h, name s]]"
    by (simp add: makeModulePathList_def)
  have m: "misses h (map (path_resolve h) [[root, name s], [root, ''build'', name s]])"
    using assms(3) by simp
  show ?thesis
    using findCompiledModule_hit [OF assms(1) assms(2) split m assms(4), of cb S] by simp
qed

theorem build_Debug_precedes_build_Release_witness:
  "fst (findCompiledModule
          (example_host [''/proj/build/Debug/nbind.node'', ''/proj/build/Release/nbind.node'']
             (\<lambda>p. Inr JNull))
          ''/proj'' registry accept empty_state)
     = Inr (Some \<lparr>type = Node, ext = ''.node'', name = ''nbind.node'',
                  path = Some ''/proj/build/Debug/nbind.node''\<rparr>)"
proof -
  let ?h = "example_host [''/proj/build/Debug/nbind.node'', ''/proj/build/Release/nbind.node'']
             (\<lambda>p. Inr JNull)"
  have h1: "require_resolve ?h ''/proj'' = None
            \<or> filter (\<lambda>x. ext x = extname ?h ''/proj'') ([] @ nodeSpec # [emccSpec]) = []"
    by (simp add: example_simps)
  have h2: "misses ?h (map snd (candidates ?h ''/proj'' []))"
    by (simp add: example_simps)
  have h3: "misses ?h [path_resolve ?h [''/proj'', name nodeSpec],
                       path_resolve ?h [''/proj'', ''build'', name nodeSpec]]"
    by (simp add: example_simps)
  have h4: "require_resolve ?h (path_resolve ?h [''/proj'', ''build'', ''Debug'', name nodeSpec])
              = Some ''/proj/build/Debug/nbind.node''"
    by (simp add: example_simps)
  have h5: "require_resolve ?h (path_resolve ?h [''/proj'', ''build'', ''Release'', name nodeSpec])
              = Some ''/proj/build/Release/nbind.node''"
    by (simp add: example_simps)
  have r: "registry = [] @ nodeSpec # [emccSpec]"
    by (simp add: registry_def nodeSpec_def emccSpec_def)
  show ?thesis
    unfolding r
    using build_Debug_precedes_build_Release [OF h1 h2 h3 h4 h5, of accept empty_state]
    by (simp add: accept_def nodeSpec_def)
qed

text \<open>
  C1 as stated fails: with only the \<^verbatim>\<open>build/Debug\<close> and \<^verbatim>\<open>build/Release\<close> artifacts of
  \<^verbatim>\<open>nbind.node\<close> present under \<^verbatim>\<open>/proj\<close>, \<^verbatim>\<open>find\<close> returns the \<^verbatim>\<open>build/Debug\<close> one.
\<close>

theorem build_Release_not_chosen_counterexample:
  "require_resolve
      (example_host [''/proj/build/Debug/nbind.node'', ''/proj/build/Release/nbind.node'']
         (\<lambda>p. Inr JNull))
      ''/proj/build/Release/nbind.node'' = Some ''/proj/build/Release/nbind.node''
   \<and> require_resolve
      (example_host [''/proj/build/Debug/nbind.node'', ''/proj/build/Release/nbind.node'']
         (\<lambda>p. Inr JNull))
      ''/proj/build/Debug/nbind.node'' = Some ''/proj/build/Debug/nbind.node''
   \<and> fst (find_nbind
            (example_host [''/proj/build/Debug/nbind.node'', ''/proj/build/Release/nbind.node'']
               (\<lambda>p. Inr JNull))
            (Some ''/proj'') (Some accept) empty_state)
       = Inr (Some \<lparr>type = Node, ext = ''.node'', name = ''nbind.node'',
                    path = Some ''/proj/build/Debug/nbind.node''\<rparr>)
   \<and> fst (find_nbind
            (example_host [''/proj/build/Debug/nbind.node'', ''/proj/build/Release/nbind.node'']
               (\<lambda>p. Inr JNull))
            (Some ''/proj'') (Some accept) empty_state)
       \<noteq> Inr (Some \<lparr>type = Node, ext = ''.node'', name = ''nbind.node'',
                    path = Some ''/proj/build/Release/nbind.node''\<rparr>)"
  by (simp add: find_nbind_def findCompiledModule_def registry_def example_simps)

text \<open>
  C3. The path list has exactly these ten entries in this order. When the fast path finds
  nothing, every candidate of the earlier registry entries and every earlier path of entry
  \<open>s\<close> fails to resolve, and path \<open>pp\<close> of \<open>s\<close> resolves to \<open>q\<close>, then the probes made are
  exactly those candidates in that order up to \<open>pp\<close>, the callback gets \<open>s\<close> with \<open>path\<close> set
  to \<open>q\<close>, and \<^verbatim>\<open>findCompiledModule\<close> returns that entry; nothing is probed afterwards.
\<close>

theorem directory_search_first_match:
  assumes "require_resolve h root = None \<or> filter (\<lambda>x. ext x = extname h root) (spre @ s # spost) = []"
    and "misses h (map snd (candidates h root spre))"
    and "makeModulePathList h root (name s) = tpre @ pp # tpost"
    and "misses h (map (path_resolve h) tpre)"
    and "require_resolve h (path_resolve h pp) = Some q"
  shows "makeModulePathList h root nm =
           [ [root, nm], [root, ''build'', nm], [root, ''build'', ''Debug'', nm],
             [root, ''build'', ''Release'', nm], [root, ''out'', ''Debug'', nm], [root, ''Debug'', nm],
             [root, ''out'', ''Release'', nm], [root, ''Release'', nm], [root, ''build'', ''default'', nm],
             [root, (case env_NODE_BINDINGS_COMPILED_DIR h of
                       None \<Rightarrow> ''compiled'' | Some d \<Rightarrow> if d = [] then ''compiled'' else d),
              versions_node h, platform h, arch h, nm] ]
         \<and> findCompiledModule h root (spre @ s # spost) cb S =
             (case cb (FindOk (s\<lparr>path := Some q\<rparr>))
                     (emit (map Probe (fastTried h root (spre @ s # spost)
                                       @ map snd (candidates h root spre)
                                       @ map (path_resolve h) tpre @ [path_resolve h pp])) S) of
                (None, S') \<Rightarrow> (Inr (Some (s\<lparr>path := Some q\<rparr>)), S')
              | (Some err, S') \<Rightarrow> (Inl err, S'))"
proof
  show "makeModulePathList h root nm =
           [ [root, nm], [root, ''build'', nm], [root, ''build'', ''Debug'', nm],
             [root, ''build'', ''Release'', nm], [root, ''out'', ''Debug'', nm], [root, ''Debug'', nm],
             [root, ''out'', ''Release'', nm], [root, ''Release'', nm], [root, ''build'', ''default'', nm],
             [root, (case env_NODE_BINDINGS_COMPILED_DIR h of
                       None \<Rightarrow> ''compiled'' | Some d \<Rightarrow> if d = [] then ''compiled'' else d),
              versions_node h, platform h, arch h, nm] ]"
    by (simp add: makeModulePathList_def compiledDir_def)
  show "findCompiledModule h root (spre @ s # spost) cb S =
             (case cb (FindOk (s\<lparr>path := Some q\<rparr>))
                     (emit (map Probe (fastTried h root (spre @ s # spost)
                                       @ map snd (candidates h root spre)
                                       @ map (path_resolve h) tpre @ [path_resolve h pp])) S) of
                (None, S') \<Rightarrow> (Inr (Some (s\<lparr>path := Some q\<rparr>)), S')
              | (Some err, S') \<Rightarrow> (Inl err, S'))"
    by (rule findCompiledModule_hit [OF assms])
qed

theorem directory_search_first_match_witness:
  "fst (findCompiledModule (example_host [''/proj/build/Release/nbind.js''] (\<lambda>p. Inr JNull)) ''/proj''
          registry accept empty_state)
     = Inr (Some \<lparr>type = Emcc, ext = ''.js'', name = ''nbind.js'',
                  path = Some ''/proj/build/Release/nbind.js''\<rparr>)
   \<and> events (snd (findCompiledModule (example_host [''/proj/build/Release/nbind.js''] (\<lambda>p. Inr JNull))
                     ''/proj'' registry accept empty_state))
     = map Probe
         [''/proj/nbind.node'', ''/proj/build/nbind.node'', ''/proj/build/Debug/nbind.node'',
          ''/proj/build/Release/nbind.node'', ''/proj/out/Debug/nbind.node'', ''/proj/Debug/nbind.node'',
          ''/proj/out/Release/nbind.node'', ''/proj/Release/nbind.node'',
          ''/proj/build/default/nbind.node'', ''/proj/compiled/6.9.1/linux/x64/nbind.node'',
          ''/proj/nbind.js'', ''/proj/build/nbind.js'', ''/proj/build/Debug/nbind.js'',
          ''/proj/build/Release/nbind.js'']"
proof -
  let ?h = "example_host [''/proj/build/Release/nbind.js''] (\<lambda>p. Inr JNull)"
  have h1: "require_resolve ?h ''/proj'' = None
            \<or> filter (\<lambda>x. ext x = extname ?h ''/proj'') ([nodeSpec] @ emccSpec # []) = []"
    by (simp add: example_simps)
  have h2: "misses ?h (map snd (candidates ?h ''/proj'' [nodeSpec]))"
    by (simp add: example_simps)
  have h3: "makeModulePathList ?h ''/proj'' (name emccSpec) =
              [[''/proj'', ''nbind.js''], [''/proj'', ''build'', ''nbind.js''],
               [''/proj'', ''build'', ''Debug'', ''nbind.js'']]
              @ [''/proj'', ''build'', ''Release'', ''nbind.js'']
              # [[''/proj'', ''out'', ''Debug'', ''nbind.js''], [''/proj'', ''Debug'', ''nbind.js''],
                 [''/proj'', ''out'', ''Release'', ''nbind.js''], [''/proj'', ''Release'', ''nbind.js''],
                 [''/proj'', ''build'', ''default'', ''nbind.js''],
                 [''/proj'', ''compiled'', ''6.9.1'', ''linux'', ''x64'', ''nbind.js'']]"
    by (simp add: example_simps)
  have h4: "misses ?h (map (path_resolve ?h)
              [[''/proj'', ''nbind.js''], [''/proj'', ''build'', ''nbind.js''],
               [''/proj'', ''build'', ''Debug'', ''nbind.js'']])"
    by (simp add: example_simps)
  have h5: "require_resolve ?h (path_resolve ?h [''/proj'', ''build'', ''Release'', ''nbind.js''])
              = Some ''/proj/build/Release/nbind.js''"
    by (simp add: example_simps)
  from directory_search_first_match [OF h1 h2 h3 h4 h5, of "''nbind.js''" accept empty_state]
  have "findCompiledModule ?h ''/proj'' ([nodeSpec] @ emccSpec # []) accept empty_state =
             (case accept (FindOk (emccSpec\<lparr>path := Some ''/proj/build/Release/nbind.js''\<rparr>))
                     (emit (map Probe (fastTried ?h ''/proj'' ([nodeSpec] @ emccSpec # [])
                                       @ map snd (candidates ?h ''/proj'' [nodeSpec])
                                       @ map (path_resolve ?h) [[''/proj'', ''nbind.js''], [''/proj'', ''build'', ''nbind.js''],
               [''/proj'', ''build'', ''Debug'', ''nbind.js'']] @ [path_resolve ?h [''/proj'', ''build'', ''Release'', ''nbind.js'']])) empty_state) of
                (None, S') \<Rightarrow> (Inr (Some (emccSpec\<lparr>path := Some ''/proj/build/Release/nbind.js''\<rparr>)), S')
              | (Some err, S') \<Rightarrow> (Inl err, S'))"
    by (rule conjunct2)
  then show ?thesis
    unfolding registry_eq by (simp add: example_simps)
qed

text \<open>
  C4. When none of the paths that \<^verbatim>\<open>find\<close> tries under \<open>root\<close> resolves, the callback is
  called with one error whose \<^verbatim>\<open>tries\<close> field is the list of those paths in the order tried
  (the twenty paths of the directory search, after \<open>root\<close> itself when its extension is
  \<^verbatim>\<open>.node\<close> or \<^verbatim>\<open>.js\<close>) and whose message is the fixed header followed by the same list,
  one path per line. With the default callback the error is thrown.
\<close>

theorem exhausted_search_reports_all_paths:
  assumes "root \<noteq> []"
    and "misses h (attemptedPaths h root)"
  shows "length (map (path_resolve h) (makeModulePathList h root ''nbind.node'')
                 @ map (path_resolve h) (makeModulePathList h root ''nbind.js'')) = 20
     \<and> find_nbind h (Some root) (Some cb) S =
         (case cb (FindErr (LocateError
                     (''Could not locate the bindings file. Tried:'' @ [CHR 0x0A]
                      @ join [CHR 0x0A] (attemptedPaths h root))
                     (attemptedPaths h root)))
                 (emit (map Probe (attemptedPaths h root)) S) of
            (None, S') \<Rightarrow> (Inr None, S')
          | (Some err, S') \<Rightarrow> (Inl err, S'))
     \<and> find_nbind h (Some root) None S =
         (Inl (LocateError
                 (''Could not locate the bindings file. Tried:'' @ [CHR 0x0A]
                  @ join [CHR 0x0A] (attemptedPaths h root))
                 (attemptedPaths h root)),
          emit (map Probe (attemptedPaths h root)) S)"
proof -
  have a: "attemptedPaths h root = fastTried h root registry @ map snd (candidates h root registry)"
    by (simp add: attemptedPaths_def candidates_registry fastTried_registry)
  have m1: "misses h (map snd (candidates h root registry))"
    using assms(2) by (simp add: a misses_append)
  have m2: "require_resolve h root = None \<or> filter (\<lambda>s. ext s = extname h root) registry = []"
    using assms(2) by (auto simp: attemptedPaths_def misses_def registry_def)
  have len: "length (map (path_resolve h) (makeModulePathList h root ''nbind.node'')
                 @ map (path_resolve h) (makeModulePathList h root ''nbind.js'')) = 20"
    by (simp add: makeModulePathList_def)
  have f: "\<And>c. findCompiledModule h root registry c S =
     (case c (FindErr (locateError (attemptedPaths h root)))
             (emit (map Probe (attemptedPaths h root)) S) of
        (None, S') \<Rightarrow> (Inr None, S')
      | (Some err, S') \<Rightarrow> (Inl err, S'))"
    by (simp only: findCompiledModule_miss [OF m2 m1] a)
  show ?thesis
    using assms(1) len by (simp add: find_nbind_def f locateError_def rethrow_find_def)
qed

theorem exhausted_search_reports_all_paths_witness:
  "find_nbind (example_host [] (\<lambda>p. Inr JNull)) (Some ''/proj/addon.node'') None empty_state
     = (Inl (LocateError
               (''Could not locate the bindings file. Tried:'' @ [CHR 0x0A]
                @ join [CHR 0x0A]
                    (attemptedPaths (example_host [] (\<lambda>p. Inr JNull)) ''/proj/addon.node''))
               (attemptedPaths (example_host [] (\<lambda>p. Inr JNull)) ''/proj/addon.node'')),
        emit (map Probe (attemptedPaths (example_host [] (\<lambda>p. Inr JNull)) ''/proj/addon.node''))
          empty_state)
   \<and> length (attemptedPaths (example_host [] (\<lambda>p. Inr JNull)) ''/proj/addon.node'') = 21
   \<and> take 1 (attemptedPaths (example_host [] (\<lambda>p. Inr JNull)) ''/proj/addon.node'')
       = [''/proj/addon.node'']"
proof -
  let ?h = "example_host [] (\<lambda>p. Inr JNull)"
  have h1: "''/proj/addon.node'' \<noteq> []" by simp
  have h2: "misses ?h (attemptedPaths ?h ''/proj/addon.node'')"
    by (simp add: example_simps attemptedPaths_def)
  have l: "length (attemptedPaths ?h ''/proj/addon.node'') = 21
           \<and> take 1 (attemptedPaths ?h ''/proj/addon.node'') = [''/proj/addon.node'']"
    by (simp add: example_simps attemptedPaths_def)
  show ?thesis
    using exhausted_search_reports_all_paths [OF h1 h2, of accept empty_state] l by simp
qed

text \<open>
  C5. The first loop of \<^verbatim>\<open>findCompiledModule\<close> calls the callback inside its \<^verbatim>\<open>try\<close> block
  (lines 145 to 153), the second loop after it (lines 166 to 176). So when \<open>root\<close> has the
  extension of a registry entry and resolves, but the callback throws, the exception is
  caught as if \<open>root\<close> had not resolved: \<open>root\<close> is recorded as tried and the directory
  search runs. Here \<^verbatim>\<open>/proj/addon.node\<close> resolves and nothing else does. With a callback that
  throws, \<^verbatim>\<open>find\<close> probes all 21 paths and is left by the error of the exhausted search,
  whose list of tried paths begins with the path that resolved; the same callback, called by
  the directory search for \<^verbatim>\<open>/proj/nbind.node\<close>, leaves \<^verbatim>\<open>find\<close> with its own exception after
  one probe. With \<^verbatim>\<open>init\<close>, no callback and an addon that loads to a function, \<^verbatim>\<open>rethrow\<close> is
  called twice, with the load error and then with the error of the exhausted search, and
  the latter is what \<^verbatim>\<open>init\<close> throws.
\<close>

theorem fast_path_swallows_callback_error:
  "require_resolve (example_host [''/proj/addon.node''] (\<lambda>p. Inr (JFun 7))) ''/proj/addon.node''
     = Some ''/proj/addon.node''
   \<and> List.find (\<lambda>s. ext s = extname (example_host [''/proj/addon.node''] (\<lambda>p. Inr (JFun 7)))
                             ''/proj/addon.node'') registry = Some nodeSpec
   \<and> find_nbind (example_host [''/proj/addon.node''] (\<lambda>p. Inr (JFun 7)))
         (Some ''/proj/addon.node'') (Some refuse) empty_state
       = (Inl (locateError (attemptedPaths (example_host [''/proj/addon.node''] (\<lambda>p. Inr (JFun 7)))
                              ''/proj/addon.node'')),
          emit (map Probe (attemptedPaths (example_host [''/proj/addon.node''] (\<lambda>p. Inr (JFun 7)))
                             ''/proj/addon.node'')) empty_state)
   \<and> length (attemptedPaths (example_host [''/proj/addon.node''] (\<lambda>p. Inr (JFun 7)))
                ''/proj/addon.node'') = 21
   \<and> find_nbind (example_host [''/proj/nbind.node''] (\<lambda>p. Inr (JFun 7)))
         (Some ''/proj'') (Some refuse) empty_state
       = (Inl (HostError 3), emit [Probe ''/proj/nbind.node''] empty_state)
   \<and> fst (init (example_host [''/proj/addon.node''] (\<lambda>p. Inr (JFun 7)))
          (Some ''/proj/addon.node'') None None empty_state)
       = Inl (locateError (attemptedPaths (example_host [''/proj/addon.node''] (\<lambda>p. Inr (JFun 7)))
                              ''/proj/addon.node''))
   \<and> callbacks (events (snd (init (example_host [''/proj/addon.node''] (\<lambda>p. Inr (JFun 7)))
          (Some ''/proj/addon.node'') None None empty_state)))
     = [CbErr (LoadError ''Error loading addon''),
        CbErr (locateError (attemptedPaths (example_host [''/proj/addon.node''] (\<lambda>p. Inr (JFun 7)))
                              ''/proj/addon.node''))]"
  by (simp add: init_simps example_simps attemptedPaths_def refuse_def)

text \<open>
  When the callback returns, the first loop does what C5 says. Let \<open>s1\<close> be the first
  registry entry whose extension is the one of \<open>root\<close>. If \<open>root\<close> resolves to \<open>q\<close> and the
  callback returns, \<^verbatim>\<open>findCompiledModule\<close> returns \<open>s1\<close> with \<open>path\<close> set to \<open>q\<close> after the
  single probe of \<open>root\<close>, without any directory search. If \<open>root\<close> does not resolve,
  \<open>root\<close> is recorded as tried and the directory search runs over the whole registry.
\<close>

lemma fast_path_with_returning_callback:
  assumes "List.find (\<lambda>x. ext x = extname h root) specs = Some s1"
  shows "(require_resolve h root = Some q
          \<and> fst (cb (FindOk (s1\<lparr>path := Some q\<rparr>)) (emit [Probe root] S)) = None
          \<longrightarrow> findCompiledModule h root specs cb S =
                (Inr (Some (s1\<lparr>path := Some q\<rparr>)),
                 snd (cb (FindOk (s1\<lparr>path := Some q\<rparr>)) (emit [Probe root] S))))
       \<and> (require_resolve h root = None
          \<longrightarrow> fastTried h root specs \<noteq> []
              \<and> set (fastTried h root specs) = {root}
              \<and> findCompiledModule h root specs cb S =
                  (case searchSpecs h root cb specs (fastTried h root specs)
                          (emit (map Probe (fastTried h root specs)) S) of
                     (Found spec, S2) \<Rightarrow> (Inr (Some spec), S2)
                   | (Raised err, S2) \<Rightarrow> (Inl err, S2)
                   | (Missed resolvedList, S2) \<Rightarrow>
                       (case cb (FindErr (locateError resolvedList)) S2 of
                          (None, S3) \<Rightarrow> (Inr None, S3)
                        | (Some err, S3) \<Rightarrow> (Inl err, S3))))"
proof (intro conjI impI)
  assume a: "require_resolve h root = Some q
          \<and> fst (cb (FindOk (s1\<lparr>path := Some q\<rparr>)) (emit [Probe root] S)) = None"
  show "findCompiledModule h root specs cb S =
                (Inr (Some (s1\<lparr>path := Some q\<rparr>)),
                 snd (cb (FindOk (s1\<lparr>path := Some q\<rparr>)) (emit [Probe root] S)))"
  proof -
    from a have r: "require_resolve h root = Some q"
      and c: "fst (cb (FindOk (s1\<lparr>path := Some q\<rparr>)) (emit [Probe root] S)) = None"
      by simp_all
    show ?thesis
      unfolding findCompiledModule_def
      by (simp add: fastPath_hit [where e = "extname h root" and cb = cb and S = S and h = h and root = root,
                          OF r assms c])
  qed
next
  assume n: "require_resolve h root = None"
  from assms have "filter (\<lambda>x. ext x = extname h root) specs \<noteq> []"
    by (induction specs) (auto split: if_splits)
  then show "fastTried h root specs \<noteq> []" and "set (fastTried h root specs) = {root}"
    by (simp_all add: fastTried_def)
  have m: "require_resolve h root = None \<or> filter (\<lambda>s. ext s = extname h root) specs = []"
    using n by simp
  show "findCompiledModule h root specs cb S =
                  (case searchSpecs h root cb specs (fastTried h root specs)
                          (emit (map Probe (fastTried h root specs)) S) of
                     (Found spec, S2) \<Rightarrow> (Inr (Some spec), S2)
                   | (Raised err, S2) \<Rightarrow> (Inl err, S2)
                   | (Missed resolvedList, S2) \<Rightarrow>
                       (case cb (FindErr (locateError resolvedList)) S2 of
                          (None, S3) \<Rightarrow> (Inr None, S3)
                        | (Some err, S3) \<Rightarrow> (Inl err, S3)))"
    unfolding findCompiledModule_def fastPath_miss [OF m]
    by (simp add: fastTried_def)
qed

section \<open>The claims about the native addon\<close>

text \<open>
  C6. With a preset object of the caller and a module that loads to an object \<open>m\<close>, the
  binding's exports are the preset object, success is reported, every preset key that is
  not a key of \<open>m\<close> keeps its preset value (and no other key appears), and every key of \<open>m\<close>
  is in the exports with the value it has in \<open>m\<close>: on a collision the module's value wins.
\<close>

theorem preset_exports_merge:
  assumes "type spec = Node" and "path spec = Some p" and "require_load h p = Inr (JObj m)"
  shows "lib (bindings (snd (init_found h (Some preset) cb b (FindOk spec) S)) b) = Some preset
       \<and> callbacks (events (snd (init_found h (Some preset) cb b (FindOk spec) S))) =
           callbacks (events S) @ [CbOk b]
       \<and> (\<forall>k. k \<notin> set (keys S m) \<longrightarrow>
             map_of (objs (snd (init_found h (Some preset) cb b (FindOk spec) S)) preset) k =
               map_of (objs S preset) k)
       \<and> (\<forall>k\<in>set (keys S m).
             map_of (objs (snd (init_found h (Some preset) cb b (FindOk spec) S)) preset) k =
               map_of (objs S m) k
             \<and> map_of (objs S m) k \<noteq> None)"
proof -
  define T where "T = emit [Load p] (populate b spec (Some preset) S)"
  have kT: "keys T m = keys S m" and oT: "objs T = objs S" and eT: "events T = events S @ [Load p]"
    and bT: "lib (bindings T b) = Some preset"
    by (simp_all add: T_def keys_def exports_ref_def)
  have run: "snd (init_found h (Some preset) cb b (FindOk spec) S) =
               emit [Callback (CbOk b)] (copy_keys preset m (keys T m) T)"
    unfolding init_found_node [OF assms] by (simp add: T_def exports_ref_def keys_def)
  have m: "\<And>k. map_of (objs (copy_keys preset m (keys T m) T) preset) k =
             (if k \<in> set (keys S m) then map_of (objs S m) k else map_of (objs S preset) k)"
    using copy_all_keys_map_of [of preset m T] by (simp add: kT oT)
  have n: "\<And>k. k \<in> set (keys S m) \<Longrightarrow> map_of (objs S m) k \<noteq> None"
    by (auto simp: keys_def dest!: weak_map_of_SomeI)
  show ?thesis
    unfolding run by (simp add: m n bT eT)
qed

theorem preset_exports_merge_witness:
  "map_of (objs (snd (init_found (example_host [] (\<lambda>p. Inr (JObj 2))) (Some 1) Rethrow 0
                        (FindOk releaseNode) example_store)) 1) ''a'' = Some (JNum 1)
   \<and> map_of (objs (snd (init_found (example_host [] (\<lambda>p. Inr (JObj 2))) (Some 1) Rethrow 0
                        (FindOk releaseNode) example_store)) 1) ''b'' = Some (JNum 20)
   \<and> map_of (objs (snd (init_found (example_host [] (\<lambda>p. Inr (JObj 2))) (Some 1) Rethrow 0
                        (FindOk releaseNode) example_store)) 1) ''c'' = Some (JNum 30)
   \<and> callbacks (events (snd (init_found (example_host [] (\<lambda>p. Inr (JObj 2))) (Some 1) Rethrow 0
                        (FindOk releaseNode) example_store))) = [CbOk 0]"
proof -
  let ?h = "example_host [] (\<lambda>p. Inr (JObj 2))"
  have h1: "type releaseNode = Node" by (simp add: releaseNode_def)
  have h2: "path releaseNode = Some ''/proj/build/Release/nbind.node''"
    by (simp add: releaseNode_def)
  have h3: "require_load ?h ''/proj/build/Release/nbind.node'' = Inr (JObj 2)"
    by (simp add: example_host_def)
  have k: "keys example_store 2 = [''b'', ''c'']"
    by (simp add: keys_def example_store_def)
  note t = preset_exports_merge [OF h1 h2 h3, of 1 Rethrow 0 example_store, unfolded k]
  from t have a: "map_of (objs (snd (init_found ?h (Some 1) Rethrow 0
                        (FindOk releaseNode) example_store)) 1) ''a'' = map_of (objs example_store 1) ''a''"
    by simp
  from t have b: "map_of (objs (snd (init_found ?h (Some 1) Rethrow 0
                        (FindOk releaseNode) example_store)) 1) ''b'' = map_of (objs example_store 2) ''b''"
    by simp
  from t have c: "map_of (objs (snd (init_found ?h (Some 1) Rethrow 0
                        (FindOk releaseNode) example_store)) 1) ''c'' = map_of (objs example_store 2) ''c''"
    by simp
  from t have d: "callbacks (events (snd (init_found ?h (Some 1) Rethrow 0
                        (FindOk releaseNode) example_store))) = callbacks (events example_store) @ [CbOk 0]"
    by simp
  show ?thesis
    unfolding a b c d by (simp add: example_store_def)
qed

text \<open>
  C7, as amended. When the caller's preset, if any, is not the module's exports object \<open>m\<close>
  itself (and \<open>m\<close> is an object already in the store, so that a newly allocated object is not
  \<open>m\<close>), the binding's exports are an object other than \<open>m\<close>, \<open>m\<close> is left as it was, every
  entry of \<open>m\<close> is an entry of the exports (which are exactly the entries of \<open>m\<close> when no preset
  was given), and setting or deleting a key of one of the two objects leaves the other
  unchanged.
\<close>

theorem binding_exports_not_aliased:
  assumes "type spec = Node" and "path spec = Some p" and "require_load h p = Inr (JObj m)"
    and "lib0 \<noteq> Some m" and "m < next_ref S"
  shows "lib (bindings (snd (init_found h lib0 cb b (FindOk spec) S)) b) = Some (exports_ref lib0 S)
       \<and> exports_ref lib0 S \<noteq> m
       \<and> objs (snd (init_found h lib0 cb b (FindOk spec) S)) m = objs S m
       \<and> (\<forall>k\<in>set (keys S m).
             map_of (objs (snd (init_found h lib0 cb b (FindOk spec) S)) (exports_ref lib0 S)) k =
               map_of (objs S m) k)
       \<and> (lib0 = None \<longrightarrow>
             map_of (objs (snd (init_found h lib0 cb b (FindOk spec) S)) (exports_ref lib0 S)) =
               map_of (objs S m))
       \<and> (\<forall>k v.
             objs (set_prop (snd (init_found h lib0 cb b (FindOk spec) S)) (exports_ref lib0 S) k v) m
               = objs (snd (init_found h lib0 cb b (FindOk spec) S)) m
           \<and> objs (delete_prop (snd (init_found h lib0 cb b (FindOk spec) S)) (exports_ref lib0 S) k) m
               = objs (snd (init_found h lib0 cb b (FindOk spec) S)) m
           \<and> objs (set_prop (snd (init_found h lib0 cb b (FindOk spec) S)) m k v) (exports_ref lib0 S)
               = objs (snd (init_found h lib0 cb b (FindOk spec) S)) (exports_ref lib0 S)
           \<and> objs (delete_prop (snd (init_found h lib0 cb b (FindOk spec) S)) m k) (exports_ref lib0 S)
               = objs (snd (init_found h lib0 cb b (FindOk spec) S)) (exports_ref lib0 S))"
proof -
  define l where "l = exports_ref lib0 S"
  define T where "T = emit [Load p] (populate b spec lib0 S)"
  define S' where "S' = snd (init_found h lib0 cb b (FindOk spec) S)"
  have ne: "l \<noteq> m"
    using assms(4,5) by (cases lib0) (auto simp: l_def exports_ref_def)
  have oTm: "objs T m = objs S m"
    using assms(5) by (cases lib0) (simp_all add: T_def)
  have kT: "keys T m = keys S m"
    by (simp add: keys_def oTm)
  have bT: "lib (bindings T b) = Some l"
    by (simp add: T_def l_def)
  have fresh: "lib0 = None \<Longrightarrow> objs T l = []"
    by (simp add: T_def l_def exports_ref_def)
  have run: "S' = emit [Callback (CbOk b)] (copy_keys l m (keys T m) T)"
    unfolding S'_def init_found_node [OF assms(1-3)] by (simp add: T_def l_def keys_def)
  have om: "objs S' m = objs S m"
    using ne by (simp add: run copy_keys_objs_other oTm)
  have ol: "\<And>k. map_of (objs S' l) k =
                (if k \<in> set (keys S m) then map_of (objs S m) k else map_of (objs T l) k)"
    using copy_all_keys_map_of [of l m T] by (simp add: run kT oTm)
  have all: "lib0 = None \<Longrightarrow> map_of (objs S' l) = map_of (objs S m)"
    using copy_keys_fresh_map_of [OF ne fresh] by (simp add: run oTm)
  have ind: "\<And>k v. objs (set_prop S' l k v) m = objs S' m \<and> objs (delete_prop S' l k) m = objs S' m
               \<and> objs (set_prop S' m k v) l = objs S' l \<and> objs (delete_prop S' m k) l = objs S' l"
    using ne by simp
  have bl: "lib (bindings S' b) = Some l"
    by (simp add: run bT)
  show ?thesis
    unfolding S'_def [symmetric] l_def [symmetric]
    using bl ne om ol all ind by simp
qed

theorem binding_exports_not_aliased_witness:
  "lib (bindings (snd (init_found (example_host [] (\<lambda>p. Inr (JObj 2))) None Rethrow 0
                         (FindOk releaseNode) example_store)) 0) = Some 3
   \<and> map_of (objs (snd (init_found (example_host [] (\<lambda>p. Inr (JObj 2))) None Rethrow 0
                         (FindOk releaseNode) example_store)) 3)
       = map_of [(''b'', JNum 20), (''c'', JNum 30)]
   \<and> objs (set_prop (snd (init_found (example_host [] (\<lambda>p. Inr (JObj 2))) None Rethrow 0
                         (FindOk releaseNode) example_store)) 3 ''b'' JNull) 2
       = [(''b'', JNum 20), (''c'', JNum 30)]"
proof -
  let ?h = "example_host [] (\<lambda>p. Inr (JObj 2))"
  have h1: "type releaseNode = Node" by (simp add: releaseNode_def)
  have h2: "path releaseNode = Some ''/proj/build/Release/nbind.node''"
    by (simp add: releaseNode_def)
  have h3: "require_load ?h ''/proj/build/Release/nbind.node'' = Inr (JObj 2)"
    by (simp add: example_host_def)
  have h4: "None \<noteq> Some (2::nat)" by simp
  have h5: "2 < next_ref example_store" by (simp add: example_store_def)
  have e: "exports_ref None example_store = 3" "objs example_store 2 = [(''b'', JNum 20), (''c'', JNum 30)]"
    by (simp_all add: exports_ref_def example_store_def)
  note t = binding_exports_not_aliased [OF h1 h2 h3 h4 h5, of Rethrow 0, unfolded e]
  from t show ?thesis by simp
qed

text \<open>
  C7 as stated fails when the caller passes the module's exports object itself as the preset
  (\<^verbatim>\<open>require\<close> hands out the same object every time): the binding's exports then are that
  object, and changing a key of the exports changes the module's mapping.
\<close>

theorem binding_exports_aliased_counterexample:
  "fst (init (example_host [''/proj/build/Release/nbind.node''] (\<lambda>p. Inr (JObj 2)))
          (Some ''/proj'') (Some 2) (Some 0) example_store) = Inr 3
   \<and> callbacks (events (snd (init (example_host [''/proj/build/Release/nbind.node''] (\<lambda>p. Inr (JObj 2)))
          (Some ''/proj'') (Some 2) (Some 0) example_store))) = [CbOk 3]
   \<and> lib (bindings (snd (init (example_host [''/proj/build/Release/nbind.node''] (\<lambda>p. Inr (JObj 2)))
          (Some ''/proj'') (Some 2) (Some 0) example_store)) 3) = Some 2
   \<and> objs (set_prop (snd (init (example_host [''/proj/build/Release/nbind.node''] (\<lambda>p. Inr (JObj 2)))
          (Some ''/proj'') (Some 2) (Some 0) example_store)) 2 ''b'' JNull) 2
       \<noteq> objs (snd (init (example_host [''/proj/build/Release/nbind.node''] (\<lambda>p. Inr (JObj 2)))
          (Some ''/proj'') (Some 2) (Some 0) example_store)) 2"
  by (simp add: init_def new_Binding_def find_nbind_def findCompiledModule_def registry_def
        init_found_def initNode_def binary_path_def invoke_callback_def keys_def get_prop_def
        set_prop_def example_store_def example_simps Let_def)

text \<open>
  C9. When \<^verbatim>\<open>require\<close> returns \<open>v\<close>, the native addon branch calls the callback exactly
  once: with the load error if \<open>v\<close> is falsy or \<^verbatim>\<open>typeof v\<close> is not \<^verbatim>\<open>'object'\<close>, that is, if
  \<open>v\<close> is not an object, and with the binding otherwise. With the load error nothing is copied:
  the store holds what it held, apart from the empty object allocated when no preset was given.
\<close>

theorem initNode_load_error_iff:
  assumes "type spec = Node" and "path spec = Some p" and "require_load h p = Inr v"
  shows "callbacks (events (snd (init_found h lib0 cb b (FindOk spec) S))) =
           callbacks (events S)
           @ [if \<not> truthy v \<or> typeof v \<noteq> ''object''
              then CbErr (LoadError ''Error loading addon'') else CbOk b]
       \<and> ((\<not> truthy v \<or> typeof v \<noteq> ''object'') = (\<forall>m. v \<noteq> JObj m))
       \<and> (\<not> truthy v \<or> typeof v \<noteq> ''object'' \<longrightarrow>
            objs (snd (init_found h lib0 cb b (FindOk spec) S)) =
              (case lib0 of Some r \<Rightarrow> objs S | None \<Rightarrow> (objs S)(next_ref S := [])))"
  by (cases v) (simp_all add: init_found_node [OF assms])

theorem initNode_load_error_iff_witness:
  "callbacks (events (snd (init_found (example_host [] (\<lambda>p. Inr (JFun 7))) None Rethrow 0
                             (FindOk releaseNode) example_store)))
     = [CbErr (LoadError ''Error loading addon'')]
   \<and> objs (snd (init_found (example_host [] (\<lambda>p. Inr (JFun 7))) None Rethrow 0
                   (FindOk releaseNode) example_store))
     = (objs example_store)(3 := [])"
proof -
  let ?h = "example_host [] (\<lambda>p. Inr (JFun 7))"
  have h1: "type releaseNode = Node" by (simp add: releaseNode_def)
  have h2: "path releaseNode = Some ''/proj/build/Release/nbind.node''"
    by (simp add: releaseNode_def)
  have h3: "require_load ?h ''/proj/build/Release/nbind.node'' = Inr (JFun 7)"
    by (simp add: example_host_def)
  show ?thesis
    using initNode_load_error_iff [OF h1 h2 h3, of None Rethrow 0 example_store]
    by (simp add: example_store_def)
qed

section \<open>The claims about the asm.js bundle\<close>

text \<open>
  C8. On the asm.js branch \<^verbatim>\<open>init\<close>'s callback of \<^verbatim>\<open>find\<close> is \<^verbatim>\<open>require\<close> of the bundle in
  the state \<open>asm_ready\<close>, in which \<^verbatim>\<open>onRuntimeInitialized\<close> of the exports is already the
  wrapper around the hook the caller supplied and the completion callback has not been
  called. When the bundle does nothing while it is loaded, that callback of \<^verbatim>\<open>find\<close>
  returns without a call of the completion callback, and the binding holds its descriptor
  and its exports with the wrapper installed. When the bundle does not replace the hook and
  the caller's hook returns, the completion callback is called once for each call of the
  hook by the bundle, a success carries the binding, and the wrapper is still installed
  afterwards. When the wrapper is called in any state, and the caller's hook is absent or
  is a function that returns, the events are, in this order: the call of the caller's hook
  (if any), the call of \<^verbatim>\<open>ccall\<close> with \<^verbatim>\<open>'nbind_init'\<close>, and one call of the completion
  callback, with the error if \<^verbatim>\<open>ccall\<close> raised (also when \<^verbatim>\<open>ccall\<close> is not a function) and
  with the binding otherwise.
\<close>

theorem runtime_ready_hook_bootstrap:
  assumes "type spec = Emcc" and "path spec = Some p" and "require_load h p = Inr v"
    and "\<not> truthy (original_hook lib0 S)
         \<or> (\<exists>f. original_hook lib0 S = JFun f) \<and> fn_outcome h (original_hook lib0 S) args = None"
  shows "init_found h lib0 cb b (FindOk spec) S = require_bundle h p (asm_ready b spec lib0 cb S)
       \<and> callbacks (events (asm_ready b spec lib0 cb S)) = callbacks (events S)
       \<and> get_prop (asm_ready b spec lib0 cb S) (exports_ref lib0 S) ''onRuntimeInitialized''
           = JRuntimeInit (original_hook lib0 S) cb b (exports_ref lib0 S)
       \<and> (bundle_load h p = [] \<longrightarrow>
            fst (init_found h lib0 cb b (FindOk spec) S) = None
          \<and> callbacks (events (snd (init_found h lib0 cb b (FindOk spec) S))) = callbacks (events S)
          \<and> binary (bindings (snd (init_found h lib0 cb b (FindOk spec) S)) b) = Some spec
          \<and> lib (bindings (snd (init_found h lib0 cb b (FindOk spec) S)) b) = Some (exports_ref lib0 S)
          \<and> get_prop (snd (init_found h lib0 cb b (FindOk spec) S)) (exports_ref lib0 S)
               ''onRuntimeInitialized''
              = JRuntimeInit (original_hook lib0 S) cb b (exports_ref lib0 S))
       \<and> (hook_kept (bundle_load h p) \<and> hook_returns h (original_hook lib0 S) \<longrightarrow>
            (\<exists>es. events (snd (init_found h lib0 cb b (FindOk spec) S)) = events S @ es
                \<and> length (callbacks es) = length (fired es)
                \<and> (\<forall>b'. CbOk b' \<in> set (callbacks es) \<longrightarrow> b' = b))
          \<and> binary (bindings (snd (init_found h lib0 cb b (FindOk spec) S)) b) = Some spec
          \<and> lib (bindings (snd (init_found h lib0 cb b (FindOk spec) S)) b) = Some (exports_ref lib0 S)
          \<and> get_prop (snd (init_found h lib0 cb b (FindOk spec) S)) (exports_ref lib0 S)
               ''onRuntimeInitialized''
              = JRuntimeInit (original_hook lib0 S) cb b (exports_ref lib0 S))
       \<and> events (snd (call_value h (JRuntimeInit (original_hook lib0 S) cb b (exports_ref lib0 S))
                         args T)) =
           events T
           @ (if truthy (original_hook lib0 S) then [Call (original_hook lib0 S) args] else [])
           @ (if typeof (get_prop T (exports_ref lib0 S) ''ccall'') = ''function''
              then [Call (get_prop T (exports_ref lib0 S) ''ccall'') [JStr ''nbind_init'']] else [])
           @ [Callback (case ccall_outcome h (get_prop T (exports_ref lib0 S) ''ccall'') of
                          Some err \<Rightarrow> CbErr err | None \<Rightarrow> CbOk b)]"
proof -
  let ?R = "init_found h lib0 cb b (FindOk spec) S"
  have a: "?R = require_bundle h p (asm_ready b spec lib0 cb S)"
    by (rule init_found_emcc [OF assms(1,2)])
  have b: "callbacks (events (asm_ready b spec lib0 cb S)) = callbacks (events S)
       \<and> get_prop (asm_ready b spec lib0 cb S) (exports_ref lib0 S) ''onRuntimeInitialized''
           = JRuntimeInit (original_hook lib0 S) cb b (exports_ref lib0 S)"
    by simp
  have c: "bundle_load h p = [] \<longrightarrow>
            fst ?R = None
          \<and> callbacks (events (snd ?R)) = callbacks (events S)
          \<and> binary (bindings (snd ?R) b) = Some spec
          \<and> lib (bindings (snd ?R) b) = Some (exports_ref lib0 S)
          \<and> get_prop (snd ?R) (exports_ref lib0 S) ''onRuntimeInitialized''
              = JRuntimeInit (original_hook lib0 S) cb b (exports_ref lib0 S)"
    unfolding a by (simp add: require_bundle_def assms(3))
  have d: "hook_kept (bundle_load h p) \<and> hook_returns h (original_hook lib0 S) \<longrightarrow>
            (\<exists>es. events (snd ?R) = events S @ es
                \<and> length (callbacks es) = length (fired es)
                \<and> (\<forall>b'. CbOk b' \<in> set (callbacks es) \<longrightarrow> b' = b))
          \<and> binary (bindings (snd ?R) b) = Some spec
          \<and> lib (bindings (snd ?R) b) = Some (exports_ref lib0 S)
          \<and> get_prop (snd ?R) (exports_ref lib0 S) ''onRuntimeInitialized''
              = JRuntimeInit (original_hook lib0 S) cb b (exports_ref lib0 S)"
  proof
    assume k: "hook_kept (bundle_load h p) \<and> hook_returns h (original_hook lib0 S)"
    from init_found_emcc_outcome [OF assms(1,2) conjunct1 [OF k] conjunct2 [OF k], of cb b]
    show "(\<exists>es. events (snd ?R) = events S @ es
                \<and> length (callbacks es) = length (fired es)
                \<and> (\<forall>b'. CbOk b' \<in> set (callbacks es) \<longrightarrow> b' = b))
          \<and> binary (bindings (snd ?R) b) = Some spec
          \<and> lib (bindings (snd ?R) b) = Some (exports_ref lib0 S)
          \<and> get_prop (snd ?R) (exports_ref lib0 S) ''onRuntimeInitialized''
              = JRuntimeInit (original_hook lib0 S) cb b (exports_ref lib0 S)"
      by blast
  qed
  note e = wrapper_events [OF assms(4), of cb b "exports_ref lib0 S" T]
  from a b c d e show ?thesis
    by (intro conjI) (blast | assumption)+
qed

theorem runtime_ready_hook_bootstrap_witness:
  "get_prop (snd (init_found (example_host [] (\<lambda>p. Inr JUndefined)) (Some 1) (UserCallback 0) 0
                    (FindOk releaseEmcc) asm_store)) 1 ''onRuntimeInitialized''
     = JRuntimeInit (JFun 0) (UserCallback 0) 0 1
   \<and> events (snd (call_value (example_host [] (\<lambda>p. Inr JUndefined))
                     (JRuntimeInit (JFun 0) (UserCallback 0) 0 1) [] asm_store))
     = [Call (JFun 0) [], Call (JFun 5) [JStr ''nbind_init''], Callback (CbErr (HostError 1))]"
proof -
  let ?h = "example_host [] (\<lambda>p. Inr JUndefined)"
  have o: "original_hook (Some 1) asm_store = JFun 0"
    by (simp add: original_hook_def get_prop_def asm_store_def)
  have h1: "type releaseEmcc = Emcc" by (simp add: releaseEmcc_def)
  have h2: "path releaseEmcc = Some ''/proj/build/Release/nbind.js''"
    by (simp add: releaseEmcc_def)
  have h3: "require_load ?h ''/proj/build/Release/nbind.js'' = Inr JUndefined"
    by (simp add: example_host_def)
  have h4: "\<not> truthy (original_hook (Some 1) asm_store)
         \<or> (\<exists>f. original_hook (Some 1) asm_store = JFun f)
           \<and> fn_outcome ?h (original_hook (Some 1) asm_store) [] = None"
    unfolding o by (simp add: example_host_def)
  have h5: "bundle_load ?h ''/proj/build/Release/nbind.js'' = []"
    by (simp add: example_host_def)
  have c: "get_prop asm_store 1 ''ccall'' = JFun 5"
    by (simp add: get_prop_def asm_store_def)
  have e: "exports_ref (Some 1) asm_store = 1"
    by (simp add: exports_ref_def)
  have co: "ccall_outcome ?h (JFun 5) = Some (HostError 1)"
    by (simp add: ccall_outcome_def example_host_def)
  have ev: "events asm_store = []"
    by (simp add: asm_store_def)
  note t = runtime_ready_hook_bootstrap [OF h1 h2 h3 h4, of "UserCallback 0" 0 asm_store,
      unfolded o e c co ev, THEN conjunct2, THEN conjunct2, THEN conjunct2]
  from t h5 show ?thesis
    by (simp del: call_value.simps)
qed

section \<open>The claims about \<^verbatim>\<open>init\<close> as a whole\<close>






end
